theory Spec2Isabelle
  imports Main "HOL-Library.Sublist" "HOL-Library.AList" "HOL-Library.Multiset"
    "HOL-Library.List_Lexorder"
begin

section \<open>JavaScript strings\<close>

text \<open>
  A JavaScript string is a sequence of UTF-16 code units. The regular expressions of
  the source carry no \<open>u\<close> flag, \<open>includes\<close>, \<open>split\<close>, \<open>===\<close> and the keys of a
  \<open>Map\<close> all work on code units, so a string is modelled as the list of its code units.
  \<open>asc\<close> turns an ASCII literal of the source into that representation.
\<close>

type_synonym jsstring = "nat list"

definition asc :: "string \<Rightarrow> jsstring" where
  "asc s = map of_char s"

text \<open>\<open>String.prototype.includes\<close>: the argument occurs as a contiguous substring.\<close>

fun str_includes :: "jsstring \<Rightarrow> jsstring \<Rightarrow> bool" where
  "str_includes [] t = (t = [])"
| "str_includes (c # s) t = (prefix t (c # s) \<or> str_includes s t)"

text \<open>
  The decimal rendering of a non-negative integer, as a template literal
  \<open>`${n}`\<close> produces it for an array index or a line number.
\<close>

fun decimal :: "nat \<Rightarrow> jsstring" where
  "decimal n = (if n < 10 then [48 + n] else decimal (n div 10) @ [48 + n mod 10])"

declare decimal.simps [simp del]

text \<open>
  The rendering \<open>`${n}`\<close> of an integer of either sign (below \<open>10^21\<close> in magnitude, from
  where on the host writes an exponent).
\<close>

definition numberToString :: "int \<Rightarrow> jsstring" where
  "numberToString i = (if i < 0 then asc ''-'' @ decimal (nat (- i)) else decimal (nat i))"

section \<open>Data model\<close>

datatype NodeType = Kanji | Primitive

datatype JLPTLevel = N5 | N4 | N3 | N2 | N1

text \<open>
  The parsed rows. \<open>undefined\<close> is \<open>None\<close>. The fields \<open>onReading\<close>, \<open>kunReading\<close>
  and \<open>unicode\<close> occur again in the graph node and are written with the record's name
  (\<open>KanjiData.onReading\<close>) where a row is meant.
\<close>

record KanjiData =
  kanji :: jsstring
  id5th :: "int option"
  id6th :: "int option"
  keyword5th :: jsstring
  keyword6th :: jsstring
  components :: jsstring
  onReading :: jsstring
  kunReading :: jsstring

record PrimitiveData =
  oldPath :: jsstring
  parentFrame :: "int option"
  unicode :: "jsstring option"
  nextFrame :: "int option"
  realHeisig :: "bool option"

text \<open>
  A graph node. The source distinguishes the two kinds by the \<open>type\<close> tag; a field that
  a node does not carry reads as \<open>undefined\<close>, here \<open>None\<close>. \<open>jlptLevel\<close> holds one of
  the five level tags of the JLPT lookup, or nothing. The fields \<open>id\<close> and \<open>type\<close> are
  \<open>node_id\<close> and \<open>node_type\<close> here (\<open>tree_id\<close> for the id of a tree node, \<open>edge_type\<close>
  for the type of an edge), as \<open>id\<close> is the identity function of HOL.
\<close>

record GraphNode =
  node_id :: jsstring
  node_type :: NodeType
  character :: jsstring
  keyword :: jsstring
  rtkId :: "int option"
  onReading :: "jsstring option"
  kunReading :: "jsstring option"
  jlptLevel :: "JLPTLevel option"
  unicode :: "jsstring option"
  svgPath :: "jsstring option"

datatype EdgeType = mnemonic_uses | used_in_mnemonic

record GraphEdge =
  source :: jsstring
  target :: jsstring
  edge_type :: EdgeType

record RTKGraph =
  nodes :: "GraphNode list"
  edges :: "GraphEdge list"

record MoreNodeMeta =
  parentNodeId :: jsstring
  totalReferers :: nat
  currentIndex :: int

text \<open>
  A tree node. \<open>parent\<close> is a reference to the enclosing tree node in the source; it is
  kept as the parent's id, since the parent object is still under construction when the
  child is created. \<open>referers\<close> and \<open>moreNodeMeta\<close> are absent on the nodes that do not
  set them.
\<close>

datatype TreeNode = TreeNode
  (tree_id: jsstring)
  (data: GraphNode)
  (depth: int)
  (expanded: bool)
  (referersExpanded: bool)
  (parent: "jsstring option")
  (children: "TreeNode list")
  (referers: "TreeNode list option")
  (moreNodeMeta: "MoreNodeMeta option")

text \<open>
  The result of a tree build. \<open>maxTreeDepth\<close> is the field \<open>maxDepth\<close> of the metadata
  (named after the local variable it is set from, as \<open>maxDepth\<close> is the depth limit of
  the build). Where the fields \<open>metadata\<close> and \<open>circularReferences\<close> of a tree result are
  meant, they are written with the record's name.
\<close>

record TreeMetadata =
  totalNodes :: nat
  maxTreeDepth :: int
  circularReferences :: "jsstring list"

record TreeTransformationResult =
  root :: TreeNode
  allNodes :: "TreeNode list"
  sourceGraph :: RTKGraph
  metadata :: TreeMetadata

text \<open>
  The graph a build returns carries metadata; the validated build adds a validation
  report (\<open>{...graph, validation}\<close>). \<open>buildTimestamp\<close> is the reading of the clock.
\<close>

record GraphMetadata =
  totalKanji :: nat
  totalPrimitives :: nat
  totalEdges :: nat
  buildTimestamp :: int

record BuiltGraph = RTKGraph +
  metadata :: GraphMetadata

record Validation =
  missingComponents :: "jsstring list"
  duplicateNodes :: "jsstring list"

record ValidatedGraph = BuiltGraph +
  validation :: Validation


section \<open>String helpers of the host\<close>

text \<open>
  \<open>String.prototype.trim\<close> removes the white space and line terminator code units of
  ECMAScript from both ends.
\<close>

definition isWhiteSpace :: "nat \<Rightarrow> bool" where
  "isWhiteSpace c \<longleftrightarrow>
     c \<in> {0x9, 0xA, 0xB, 0xC, 0xD, 0x20, 0xA0, 0x1680, 0x2028, 0x2029, 0x202F, 0x205F,
          0x3000, 0xFEFF}
     \<or> (0x2000 \<le> c \<and> c \<le> 0x200A)"

definition trim :: "jsstring \<Rightarrow> jsstring" where
  "trim s = rev (dropWhile isWhiteSpace (rev (dropWhile isWhiteSpace s)))"

text \<open>\<open>s.split(sep)\<close> for a separator of one code unit; the result is never empty.\<close>

fun split_on :: "nat \<Rightarrow> jsstring \<Rightarrow> jsstring list" where
  "split_on sep [] = [[]]"
| "split_on sep (c # s) =
     (if c = sep then [] # split_on sep s
      else (case split_on sep s of x # xs \<Rightarrow> (c # x) # xs | [] \<Rightarrow> [[c]]))"

text \<open>\<open>array.join(sep)\<close>.\<close>

fun join :: "jsstring \<Rightarrow> jsstring list \<Rightarrow> jsstring" where
  "join sep [] = []"
| "join sep [x] = x"
| "join sep (x # y # ys) = x @ sep @ join sep (y # ys)"

text \<open>
  A \<open>Set\<close> keeps its elements in insertion order; \<open>add\<close> of a present element changes
  nothing.
\<close>

definition set_add :: "'a list \<Rightarrow> 'a \<Rightarrow> 'a list" where
  "set_add s x = (if x \<in> set s then s else s @ [x])"

text \<open>\<open>a || b\<close> on optional numbers: \<open>undefined\<close> and \<open>0\<close> are falsy.\<close>

definition or_number :: "int option \<Rightarrow> int option \<Rightarrow> int option" where
  "or_number a b = (case a of Some n \<Rightarrow> (if n \<noteq> 0 then Some n else b) | None \<Rightarrow> b)"

text \<open>\<open>s || undefined\<close> on a string: the empty string is falsy.\<close>

definition or_undefined :: "jsstring \<Rightarrow> jsstring option" where
  "or_undefined s = (if s \<noteq> [] then Some s else None)"

section \<open>Record parser: kanji rows\<close>

text \<open>
  \<open>parseCSVLine\<close>: the loop over the code units of a line, with the fields so far, the
  current field and the quote state. Reading past the end of the line gives
  \<open>undefined\<close>, which is not a quote.
\<close>

fun parseCSVLoop :: "jsstring \<Rightarrow> jsstring list \<Rightarrow> jsstring \<Rightarrow> bool \<Rightarrow> jsstring list" where
  "parseCSVLoop [] result current inQuotes = result @ [trim current]"
| "parseCSVLoop (c # rest) result current inQuotes =
     (if c = 0x22
      then (case rest of
              [] \<Rightarrow> parseCSVLoop rest result current (\<not> inQuotes)
            | nextChar # rest' \<Rightarrow>
                if inQuotes \<and> nextChar = 0x22
                then parseCSVLoop rest' result (current @ [0x22]) inQuotes
                else parseCSVLoop rest result current (\<not> inQuotes))
      else if c = 0x2C \<and> \<not> inQuotes
      then parseCSVLoop rest (result @ [trim current]) [] inQuotes
      else parseCSVLoop rest result (current @ [c]) inQuotes)"

definition parseCSVLine :: "jsstring \<Rightarrow> jsstring list" where
  "parseCSVLine line = parseCSVLoop line [] [] False"

text \<open>
  \<open>parseInt(s, 10)\<close>: leading white space, an optional sign and the longest run of
  decimal digits; \<open>NaN\<close> (here \<open>None\<close>) without a digit. The value is exact in the model.
  The host returns the nearest double: it agrees with the model for values up to \<open>2^53\<close>
  in magnitude and rounds beyond, to \<open>Infinity\<close> from about \<open>1.8 * 10^308\<close> on.
\<close>

definition isDigit :: "nat \<Rightarrow> bool" where
  "isDigit c \<longleftrightarrow> 0x30 \<le> c \<and> c \<le> 0x39"

definition digitsValue :: "jsstring \<Rightarrow> int" where
  "digitsValue ds = foldl (\<lambda>a d. 10 * a + int (d - 0x30)) 0 ds"

definition parseInt :: "jsstring \<Rightarrow> int option" where
  "parseInt s =
     (let t = dropWhile isWhiteSpace s;
          negative = (case t of c # _ \<Rightarrow> c = 0x2D | [] \<Rightarrow> False);
          unsigned = (case t of c # r \<Rightarrow> (if c = 0x2D \<or> c = 0x2B then r else t) | [] \<Rightarrow> t);
          ds = takeWhile isDigit unsigned
      in if ds = [] then None
         else Some (if negative then - digitsValue ds else digitsValue ds))"

definition parseOptionalNumber :: "jsstring \<Rightarrow> int option" where
  "parseOptionalNumber v =
     (let trimmed = trim v
      in if trimmed = [] \<or> trimmed = asc ''NULL'' \<or> trimmed = asc ''null'' then None
         else parseInt trimmed)"

text \<open>\<open>RTKParseError\<close>: the message and, where given, the line number.\<close>

datatype RTKParseError = RTKParseError (message: jsstring) (lineNumber: "nat option")

text \<open>\<open>validateKanjiData\<close> returns normally (\<open>None\<close>) or throws.\<close>

definition validateKanjiData :: "KanjiData \<Rightarrow> nat \<Rightarrow> RTKParseError option" where
  "validateKanjiData d n =
     (if trim (kanji d) = []
      then Some (RTKParseError (asc ''Missing kanji character at line '' @ decimal n) (Some n))
      else if trim (keyword5th d) = [] \<and> trim (keyword6th d) = []
      then Some (RTKParseError (asc ''Missing keywords at line '' @ decimal n) (Some n))
      else None)"

text \<open>\<open>while (fields.length < 8) fields.push('')\<close>.\<close>

definition padFields :: "jsstring list \<Rightarrow> jsstring list" where
  "padFields row = row @ replicate (8 - length row) []"

text \<open>
  The body of the loop of \<open>parseKanjiCSV\<close> for one line. Nothing in it but the
  validation can throw, so the \<open>catch\<close> clause only passes the \<open>RTKParseError\<close> on.
\<close>

definition parseKanjiRow :: "jsstring \<Rightarrow> nat \<Rightarrow> RTKParseError + KanjiData" where
  "parseKanjiRow line n =
     (let row = padFields (parseCSVLine line);
          kanjiData = \<lparr> kanji = trim (row ! 0),
                        id5th = parseOptionalNumber (row ! 1),
                        id6th = parseOptionalNumber (row ! 2),
                        keyword5th = trim (row ! 3),
                        keyword6th = trim (row ! 4),
                        components = trim (row ! 5),
                        KanjiData.onReading = trim (row ! 6),
                        KanjiData.kunReading = trim (row ! 7) \<rparr>
      in case validateKanjiData kanjiData n of
           Some err \<Rightarrow> Inl err
         | None \<Rightarrow> Inr kanjiData)"

text \<open>The loop over the lines from index \<open>i\<close> on; the line number is \<open>i + 1\<close>.\<close>

fun parseKanjiRows :: "nat \<Rightarrow> jsstring list \<Rightarrow> RTKParseError + KanjiData list" where
  "parseKanjiRows i [] = Inr []"
| "parseKanjiRows i (line # rest) =
     (case parseKanjiRow line (i + 1) of
        Inl err \<Rightarrow> Inl err
      | Inr kanjiData \<Rightarrow>
          (case parseKanjiRows (i + 1) rest of
             Inl err \<Rightarrow> Inl err
           | Inr result \<Rightarrow> Inr (kanjiData # result)))"

text \<open>
  \<open>parseKanjiCSV\<close>. \<open>toLowerCase\<close> is the host's case conversion and is a parameter of
  the model.
\<close>

definition parseKanjiCSV :: "(jsstring \<Rightarrow> jsstring) \<Rightarrow> jsstring \<Rightarrow> RTKParseError + KanjiData list" where
  "parseKanjiCSV toLowerCase csvText =
     (let ls = filter (\<lambda>line. length line > 0) (map trim (split_on 0xA csvText))
      in if length ls = 0 then Inl (RTKParseError (asc ''CSV file is empty'') None)
         else (let startIndex = (if str_includes (toLowerCase (ls ! 0)) (asc ''kanji'')
                                 then 1 else 0)
               in parseKanjiRows startIndex (drop startIndex ls)))"

section \<open>Component resolver\<close>

text \<open>
  \<open>COMPLEX_KANJI_EXCLUSIONS\<close> and \<open>KEYWORD_TO_CHARACTER_MAPPINGS\<close> are object literals.
  Reading a property of an object literal (\<open>obj[key]\<close>, \<open>key in obj\<close>) also finds the
  properties inherited from \<open>Object.prototype\<close>, whose values are functions or objects.
\<close>

definition objectPrototypeKeys :: "jsstring list" where
  "objectPrototypeKeys = map asc
     [''constructor'', ''__defineGetter__'', ''__defineSetter__'', ''hasOwnProperty'',
      ''__lookupGetter__'', ''__lookupSetter__'', ''isPrototypeOf'', ''propertyIsEnumerable'',
      ''toString'', ''valueOf'', ''__proto__'', ''toLocaleString'']"

text \<open>The keys of \<open>COMPLEX_KANJI_EXCLUSIONS\<close>; the values are documentation only.\<close>

definition COMPLEX_KANJI_EXCLUSIONS :: "jsstring list" where
  "COMPLEX_KANJI_EXCLUSIONS = [[0x8098]]"

definition PREFER_KANJI_KEYWORDS :: "jsstring list" where
  "PREFER_KANJI_KEYWORDS = map asc
     [''one'', ''two'', ''three'', ''four'', ''five'', ''six'', ''seven'', ''eight'', ''nine'',
      ''ten'', ''hundred'', ''thousand'', ''man'', ''large'', ''small'', ''up'', ''down'',
      ''left'', ''right'']"

definition KEYWORD_TO_CHARACTER_MAPPINGS :: "(jsstring \<times> jsstring) list" where
  "KEYWORD_TO_CHARACTER_MAPPINGS =
     [(asc ''elbow'', [0x53B6]),
      (asc ''top hat'', [0x2E8A]),
      (asc ''animal legs'', [0x30CF]),
      (asc ''human legs'', [0x513F]),
      (asc ''drop'', [0x4E36]),
      (asc ''needle'', [0x5341]),
      (asc ''ice'', [0x51AB]),
      (asc ''cliff'', [0x5382]),
      (asc ''tent'', [0x2E8A]),
      (asc ''crown'', [0x5196]),
      (asc ''cave'', [0x7A74]),
      (asc ''house'', [0x5B80]),
      (asc ''walking stick'', [0x4E28]),
      (asc ''bound up'', [0x52F9]),
      (asc ''embrace'', [0x52F9]),
      (asc ''horns'', [0x4E37]),
      (asc ''wind'', [0x51E0]),
      (asc ''claw'', [0x722A]),
      (asc ''vulture'', [0x722A]),
      (asc ''mouth'', [0x53E3]),
      (asc ''eye'', [0x76EE]),
      (asc ''day'', [0x65E5]),
      (asc ''sun'', [0x65E5]),
      (asc ''month'', [0x6708]),
      (asc ''moon'', [0x6708]),
      (asc ''flesh'', [0x6708]),
      (asc ''part of the body'', [0x6708]),
      (asc ''person'', [0x4EBA]),
      (asc ''water'', [0x6C34]),
      (asc ''water droplets'', [0x6C35]),
      (asc ''water pistol'', [0x6C35]),
      (asc ''fire'', [0x706B]),
      (asc ''oven-fire'', [0x706C]),
      (asc ''barbecue'', [0x706C]),
      (asc ''soil'', [0x571F]),
      (asc ''dirt'', [0x571F]),
      (asc ''ground'', [0x571F]),
      (asc ''tree'', [0x6728]),
      (asc ''wood'', [0x6728]),
      (asc ''hand'', [0x624B]),
      (asc ''finger'', [0x624B]),
      (asc ''fingers'', [0x624B]),
      (asc ''heart'', [0x5FC3]),
      (asc ''state of mind'', [0x5FC3]),
      (asc ''thread'', [0x7CF8]),
      (asc ''spiderman'', [0x7CF8]),
      (asc ''say'', [0x8A00]),
      (asc ''words'', [0x8A00]),
      (asc ''keitai'', [0x8A00]),
      (asc ''car'', [0x8ECA]),
      (asc ''metal'', [0x91D1]),
      (asc ''gold'', [0x91D1]),
      (asc ''horse'', [0x99AC]),
      (asc ''fish'', [0x9B5A]),
      (asc ''bird'', [0x9CE5])]"

text \<open>
  What \<open>KEYWORD_TO_CHARACTER_MAPPINGS[kw]\<close> evaluates to: a string of the table, an
  inherited function or object, or \<open>undefined\<close>.
\<close>

datatype PropertyValue = MappedString jsstring | InheritedObject | Undefined

definition resolveComponentKeyword :: "jsstring \<Rightarrow> PropertyValue" where
  "resolveComponentKeyword kw =
     (case map_of KEYWORD_TO_CHARACTER_MAPPINGS kw of
        Some c \<Rightarrow> MappedString c
      | None \<Rightarrow> (if kw \<in> set objectPrototypeKeys then InheritedObject else Undefined))"

definition isComplexKanjiExcluded :: "jsstring \<Rightarrow> bool" where
  "isComplexKanjiExcluded k \<longleftrightarrow>
     k \<in> set COMPLEX_KANJI_EXCLUSIONS \<or> k \<in> set objectPrototypeKeys"

definition shouldPreferKanji :: "jsstring \<Rightarrow> bool" where
  "shouldPreferKanji kw \<longleftrightarrow> kw \<in> set PREFER_KANJI_KEYWORDS"

section \<open>Graph builder\<close>

text \<open>
  \<open>identifier.replace(/[^a-zA-Z0-9...]/g, '_')\<close>, where the class also holds the code
  units U+4E00 to U+9FAF: every code unit outside the class becomes an underscore.
\<close>

definition sanitize :: "nat \<Rightarrow> nat" where
  "sanitize c =
     (if (0x61 \<le> c \<and> c \<le> 0x7A) \<or> (0x41 \<le> c \<and> c \<le> 0x5A) \<or> (0x30 \<le> c \<and> c \<le> 0x39)
         \<or> (0x4E00 \<le> c \<and> c \<le> 0x9FAF)
      then c else 0x5F)"

definition generateNodeId :: "jsstring \<Rightarrow> jsstring \<Rightarrow> jsstring" where
  "generateNodeId type identifier = type @ asc ''_'' @ map sanitize identifier"

definition parseComponents :: "jsstring \<Rightarrow> jsstring list" where
  "parseComponents componentsField =
     (if trim componentsField = [] then []
      else filter (\<lambda>component. length component > 0)
             (map trim (split_on 0x3B componentsField)))"

text \<open>
  \<open>createKanjiNode\<close>. The optional JLPT mapping is an object from kanji characters to
  level tags; it is modelled by its lookup, a function from a character to one of the
  five levels or nothing.
\<close>

definition createKanjiNode :: "KanjiData \<Rightarrow> (jsstring \<Rightarrow> JLPTLevel option) option \<Rightarrow> GraphNode" where
  "createKanjiNode k jlptMapping =
     \<lparr> node_id = generateNodeId (asc ''kanji'') (kanji k),
       node_type = Kanji,
       character = kanji k,
       keyword = (if keyword6th k \<noteq> [] then keyword6th k else keyword5th k),
       rtkId = or_number (id6th k) (id5th k),
       onReading = or_undefined (KanjiData.onReading k),
       kunReading = or_undefined (KanjiData.kunReading k),
       jlptLevel = (case jlptMapping of None \<Rightarrow> None | Some m \<Rightarrow> m (kanji k)),
       unicode = None,
       svgPath = None \<rparr>"

text \<open>
  \<open>filename.replace(/\.(svg|png|jpg|jpeg)$/i, '')\<close>: a final image extension, in any
  mix of ASCII upper and lower case, is cut off.
\<close>

definition asciiLower :: "nat \<Rightarrow> nat" where
  "asciiLower c = (if 0x41 \<le> c \<and> c \<le> 0x5A then c + 0x20 else c)"

definition stripImageExtension :: "jsstring \<Rightarrow> jsstring" where
  "stripImageExtension filename =
     (let l = map asciiLower filename
      in if suffix (asc ''.jpeg'') l then take (length filename - 5) filename
         else if suffix (asc ''.svg'') l \<or> suffix (asc ''.png'') l \<or> suffix (asc ''.jpg'') l
         then take (length filename - 4) filename
         else filename)"

text \<open>
  \<open>name.replace(/^p\d+(\.\d+)?-/, '')\<close>: a leading \<open>p\<close>, digits, an optional dot
  with digits, and a hyphen are cut off.
\<close>

definition stripFramePrefix :: "jsstring \<Rightarrow> jsstring" where
  "stripFramePrefix name =
     (case name of
        [] \<Rightarrow> name
      | c # rest \<Rightarrow>
          if c \<noteq> 0x70 \<or> takeWhile isDigit rest = [] then name
          else (case dropWhile isDigit rest of
                  [] \<Rightarrow> name
                | d # r \<Rightarrow>
                    if d = 0x2D then r
                    else if d = 0x2E \<and> takeWhile isDigit r \<noteq> []
                    then (case dropWhile isDigit r of
                            [] \<Rightarrow> name
                          | e # r' \<Rightarrow> if e = 0x2D then r' else name)
                    else name))"

definition createPrimitiveNode :: "PrimitiveData \<Rightarrow> GraphNode" where
  "createPrimitiveNode primitive =
     (let pathParts = split_on 0x2F (oldPath primitive);
          filename = last pathParts;
          name = stripImageExtension filename;
          cleanKeyword = stripFramePrefix name
      in \<lparr> node_id = generateNodeId (asc ''primitive'') name,
           node_type = Primitive,
           character = (case PrimitiveData.unicode primitive of
                          Some u \<Rightarrow> (if u \<noteq> [] then u else cleanKeyword)
                        | None \<Rightarrow> cleanKeyword),
           keyword = cleanKeyword,
           rtkId = or_number (parentFrame primitive) (nextFrame primitive),
           onReading = None,
           kunReading = None,
           jlptLevel = None,
           unicode = PrimitiveData.unicode primitive,
           svgPath = Some (oldPath primitive) \<rparr>)"

text \<open>
  The errors a build can end in: the explicit check of the inputs, and the
  \<open>TypeError\<close> of calling \<open>replace\<close> on a value that is not a string.
\<close>

datatype BuildFailure = NullInput | ReplaceNotAFunction

text \<open>
  The keyword search of \<open>createMnemonicEdges\<close> (the part guarded by
  \<open>if (!referencedNode)\<close>): by keyword in the order the keyword's kind asks for, then by
  id. A \<open>Map\<close> is iterated in insertion order.
\<close>

definition keywordSearch ::
    "(jsstring \<times> GraphNode) list \<Rightarrow> (jsstring \<times> GraphNode) list \<Rightarrow> jsstring \<Rightarrow> GraphNode option" where
  "keywordSearch kanjiNodes primitiveNodes kw =
     (let inKanji = find (\<lambda>kanjiNode. keyword kanjiNode = kw
                            \<and> \<not> isComplexKanjiExcluded (character kanjiNode))
                      (map snd kanjiNodes);
          inPrimitives = find (\<lambda>primitive. keyword primitive = kw) (map snd primitiveNodes);
          referencedNode =
            (if shouldPreferKanji kw
             then (case inKanji of Some n \<Rightarrow> Some n | None \<Rightarrow> inPrimitives)
             else (case inPrimitives of Some n \<Rightarrow> Some n | None \<Rightarrow> inKanji))
      in case referencedNode of
           Some n \<Rightarrow> Some n
         | None \<Rightarrow>
             (case map_of kanjiNodes (generateNodeId (asc ''kanji'') kw) of
                Some potentialKanji \<Rightarrow>
                  if \<not> isComplexKanjiExcluded kw then Some potentialKanji
                  else map_of primitiveNodes (generateNodeId (asc ''primitive'') kw)
              | None \<Rightarrow> map_of primitiveNodes (generateNodeId (asc ''primitive'') kw)))"

text \<open>
  The node one keyword token refers to: the override map first, the keyword search if
  it gives nothing. An inherited property of the override table is truthy and not a
  string, so that \<open>generateNodeId\<close> throws on it.
\<close>

definition resolveReference ::
    "(jsstring \<times> GraphNode) list \<Rightarrow> (jsstring \<times> GraphNode) list \<Rightarrow> jsstring
       \<Rightarrow> BuildFailure + GraphNode option" where
  "resolveReference kanjiNodes primitiveNodes kw =
     (case resolveComponentKeyword kw of
        InheritedObject \<Rightarrow> Inl ReplaceNotAFunction
      | Undefined \<Rightarrow> Inr (keywordSearch kanjiNodes primitiveNodes kw)
      | MappedString mappedCharacter \<Rightarrow>
          if mappedCharacter = [] then Inr (keywordSearch kanjiNodes primitiveNodes kw)
          else (case map_of kanjiNodes (generateNodeId (asc ''kanji'') mappedCharacter) of
                  Some n \<Rightarrow> Inr (Some n)
                | None \<Rightarrow>
                    (case map_of primitiveNodes
                            (generateNodeId (asc ''primitive'') mappedCharacter) of
                       Some n \<Rightarrow> Inr (Some n)
                     | None \<Rightarrow> Inr (keywordSearch kanjiNodes primitiveNodes kw))))"

text \<open>
  The loop over the keyword tokens of one kanji. The state is the edge list, the set of
  missing mnemonics and the targets already linked from this kanji.
\<close>

fun keywordLoop ::
    "(jsstring \<times> GraphNode) list \<Rightarrow> (jsstring \<times> GraphNode) list \<Rightarrow> jsstring \<Rightarrow> jsstring list
       \<Rightarrow> GraphEdge list \<times> jsstring list \<times> jsstring list
       \<Rightarrow> BuildFailure + GraphEdge list \<times> jsstring list \<times> jsstring list" where
  "keywordLoop kanjiNodes primitiveNodes kanjiId [] st = Inr st"
| "keywordLoop kanjiNodes primitiveNodes kanjiId (kw # kws) (es, missingMnemonics, createdTargets) =
     (case resolveReference kanjiNodes primitiveNodes kw of
        Inl err \<Rightarrow> Inl err
      | Inr (Some referencedNode) \<Rightarrow>
          if node_id referencedNode \<notin> set createdTargets
          then keywordLoop kanjiNodes primitiveNodes kanjiId kws
                 (es @ [\<lparr> source = kanjiId, target = node_id referencedNode,
                          edge_type = mnemonic_uses \<rparr>,
                        \<lparr> source = node_id referencedNode, target = kanjiId,
                          edge_type = used_in_mnemonic \<rparr>],
                  missingMnemonics,
                  set_add createdTargets (node_id referencedNode))
          else keywordLoop kanjiNodes primitiveNodes kanjiId kws
                 (es, missingMnemonics, createdTargets)
      | Inr None \<Rightarrow>
          keywordLoop kanjiNodes primitiveNodes kanjiId kws
            (es, set_add missingMnemonics kw, createdTargets))"

text \<open>The loop over the kanji rows; \<open>createdTargets\<close> starts empty for each row.\<close>

fun kanjiLoop ::
    "(jsstring \<times> GraphNode) list \<Rightarrow> (jsstring \<times> GraphNode) list \<Rightarrow> KanjiData list
       \<Rightarrow> GraphEdge list \<times> jsstring list
       \<Rightarrow> BuildFailure + GraphEdge list \<times> jsstring list" where
  "kanjiLoop kanjiNodes primitiveNodes [] st = Inr st"
| "kanjiLoop kanjiNodes primitiveNodes (k # ks) (es, missingMnemonics) =
     (let kanjiId = generateNodeId (asc ''kanji'') (kanji k)
      in case map_of kanjiNodes kanjiId of
           None \<Rightarrow> kanjiLoop kanjiNodes primitiveNodes ks (es, missingMnemonics)
         | Some kanjiNode \<Rightarrow>
             (case keywordLoop kanjiNodes primitiveNodes kanjiId
                     (parseComponents (components k)) (es, missingMnemonics, []) of
                Inl err \<Rightarrow> Inl err
              | Inr (es', missingMnemonics', createdTargets) \<Rightarrow>
                  kanjiLoop kanjiNodes primitiveNodes ks (es', missingMnemonics')))"

definition createMnemonicEdges ::
    "(jsstring \<times> GraphNode) list \<Rightarrow> (jsstring \<times> GraphNode) list \<Rightarrow> KanjiData list
       \<Rightarrow> BuildFailure + GraphEdge list \<times> jsstring list" where
  "createMnemonicEdges kanjiNodes primitiveNodes kanjiData =
     kanjiLoop kanjiNodes primitiveNodes kanjiData ([], [])"

text \<open>
  \<open>RTKDataError\<close>: what went wrong, and the record counts of its context.
\<close>

datatype RTKDataError = RTKDataError (cause: BuildFailure) (kanjiCount: nat) (primitivesCount: nat)

definition kanjiNodeMap ::
    "KanjiData list \<Rightarrow> (jsstring \<Rightarrow> JLPTLevel option) option \<Rightarrow> (jsstring \<times> GraphNode) list" where
  "kanjiNodeMap kanjiData jlptMapping =
     foldl (\<lambda>kanjiNodes k. let node = createKanjiNode k jlptMapping
                           in AList.update (node_id node) node kanjiNodes)
       [] kanjiData"

definition primitiveNodeMap :: "PrimitiveData list \<Rightarrow> (jsstring \<times> GraphNode) list" where
  "primitiveNodeMap primitivesData =
     foldl (\<lambda>primitiveNodes primitive. let node = createPrimitiveNode primitive
                                       in AList.update (node_id node) node primitiveNodes)
       [] primitivesData"

text \<open>
  \<open>buildGraph\<close>. An absent (\<open>null\<close> or \<open>undefined\<close>) record array is \<open>None\<close>. Every
  error raised inside is caught and thrown again as an \<open>RTKDataError\<close>. The result is
  the returned graph together with the lines written by \<open>console.warn\<close>; \<open>now\<close> is the
  clock's reading.
\<close>

definition buildGraph ::
    "int \<Rightarrow> KanjiData list option \<Rightarrow> PrimitiveData list option
       \<Rightarrow> (jsstring \<Rightarrow> JLPTLevel option) option
       \<Rightarrow> RTKDataError + BuiltGraph \<times> jsstring list" where
  "buildGraph now kanjiData primitivesData jlptMapping =
     (case (kanjiData, primitivesData) of
        (Some kd, Some pd) \<Rightarrow>
          (let kanjiNodes = kanjiNodeMap kd jlptMapping;
               primitiveNodes = primitiveNodeMap pd
           in case createMnemonicEdges kanjiNodes primitiveNodes kd of
                Inl err \<Rightarrow> Inl (RTKDataError err (length kd) (length pd))
              | Inr (es, missingMnemonics) \<Rightarrow>
                  Inr (\<lparr> nodes = map snd kanjiNodes @ map snd primitiveNodes,
                         edges = es,
                         metadata = \<lparr> totalKanji = length kanjiNodes,
                                      totalPrimitives = length primitiveNodes,
                                      totalEdges = length es,
                                      buildTimestamp = now \<rparr> \<rparr>,
                       if length missingMnemonics > 0
                       then [asc ''Missing mnemonic references found: ''
                               @ join (asc '', '') missingMnemonics]
                       else []))
      | _ \<Rightarrow>
          Inl (RTKDataError NullInput
                 (case kanjiData of Some kd \<Rightarrow> length kd | None \<Rightarrow> 0)
                 (case primitivesData of Some pd \<Rightarrow> length pd | None \<Rightarrow> 0)))"

text \<open>The scan for duplicate node ids of \<open>buildValidatedGraph\<close>.\<close>

fun duplicateScan ::
    "GraphNode list \<Rightarrow> jsstring list \<times> jsstring list \<Rightarrow> jsstring list \<times> jsstring list" where
  "duplicateScan [] st = st"
| "duplicateScan (node # rest) (nodeIds, dups) =
     (if node_id node \<in> set nodeIds
      then duplicateScan rest (nodeIds, dups @ [node_id node])
      else duplicateScan rest (set_add nodeIds (node_id node), dups))"

definition buildValidatedGraph ::
    "int \<Rightarrow> KanjiData list option \<Rightarrow> PrimitiveData list option
       \<Rightarrow> (jsstring \<Rightarrow> JLPTLevel option) option
       \<Rightarrow> RTKDataError + ValidatedGraph \<times> jsstring list" where
  "buildValidatedGraph now kanjiData primitivesData jlptMapping =
     (case buildGraph now kanjiData primitivesData jlptMapping of
        Inl err \<Rightarrow> Inl err
      | Inr (graph, console) \<Rightarrow>
          (let duplicates = snd (duplicateScan (nodes graph) ([], []));
               availableNodes =
                 map (\<lambda>n. if character n \<noteq> [] then character n else keyword n) (nodes graph);
               allComponentNames =
                 foldl (\<lambda>names k. foldl set_add names (parseComponents (components k)))
                   [] (case kanjiData of Some kd \<Rightarrow> kd | None \<Rightarrow> []);
               missing = filter (\<lambda>comp. comp \<notin> set availableNodes) allComponentNames
           in Inr (\<lparr> nodes = nodes graph, edges = edges graph, metadata = metadata graph,
                     validation = \<lparr> missingComponents = missing,
                                    duplicateNodes = duplicates \<rparr> \<rparr>,
                   console)))"
section \<open>Sibling ordering\<close>

definition JLPT_ORDER :: "JLPTLevel \<Rightarrow> int" where
  "JLPT_ORDER l = (case l of N5 \<Rightarrow> 1 | N4 \<Rightarrow> 2 | N3 \<Rightarrow> 3 | N2 \<Rightarrow> 4 | N1 \<Rightarrow> 5)"

text \<open>
  \<open>Array.prototype.sort\<close> with a comparison function: the sort is stable, and an element
  \<open>x\<close> stays before \<open>y\<close> unless the comparator says \<open>x\<close> after \<open>y\<close> (a positive result).
  It is modelled as the stable insertion sort for the comparator.
\<close>

fun insort_cmp :: "('a \<Rightarrow> 'a \<Rightarrow> int) \<Rightarrow> 'a \<Rightarrow> 'a list \<Rightarrow> 'a list" where
  "insort_cmp c x [] = [x]"
| "insort_cmp c x (y # ys) = (if c x y \<le> 0 then x # y # ys else y # insort_cmp c x ys)"

definition array_sort :: "('a \<Rightarrow> 'a \<Rightarrow> int) \<Rightarrow> 'a list \<Rightarrow> 'a list" where
  "array_sort c xs = foldr (insort_cmp c) xs []"

text \<open>\<open>a.data.character || a.data.keyword || ""\<close>: the first non-empty string.\<close>

definition sortChar :: "TreeNode \<Rightarrow> jsstring" where
  "sortChar a = (if character (data a) \<noteq> [] then character (data a) else keyword (data a))"

text \<open>
  The comparison function of \<open>sortNodesByJLPTLevel\<close>. \<open>localeCompare\<close> is the host's
  collation of two strings and is a parameter of the model.
\<close>

definition compareNodes :: "(jsstring \<Rightarrow> jsstring \<Rightarrow> int) \<Rightarrow> TreeNode \<Rightarrow> TreeNode \<Rightarrow> int" where
  "compareNodes localeCompare a b =
     (case (jlptLevel (data a), jlptLevel (data b)) of
        (Some aLevel, Some bLevel) \<Rightarrow> JLPT_ORDER aLevel - JLPT_ORDER bLevel
      | (Some aLevel, None) \<Rightarrow> - 1
      | (None, Some bLevel) \<Rightarrow> 1
      | (None, None) \<Rightarrow> localeCompare (sortChar a) (sortChar b))"

definition isMoreNode :: "TreeNode \<Rightarrow> bool" where
  "isMoreNode node = str_includes (tree_id node) (asc ''_more_referers'')"

definition sortNodesByJLPTLevel ::
    "(jsstring \<Rightarrow> jsstring \<Rightarrow> int) \<Rightarrow> TreeNode list \<Rightarrow> TreeNode list" where
  "sortNodesByJLPTLevel localeCompare nodeList =
     (let moreNodes = filter isMoreNode nodeList;
          regularNodes = filter (\<lambda>node. \<not> isMoreNode node) nodeList;
          sortedRegular = array_sort (compareNodes localeCompare) regularNodes
      in sortedRegular @ moreNodes)"

section \<open>Tree transformer: indexes and referers\<close>

text \<open>
  \<open>new Map(entries)\<close> and \<open>Map.prototype.set\<close>: a key that is already present keeps its
  position and takes the new value, a new key is appended. This is \<open>AList.update\<close>
  on the list of entries in insertion order; \<open>get\<close> is \<open>map_of\<close>.
\<close>

definition nodeMap :: "'a RTKGraph_scheme \<Rightarrow> (jsstring \<times> GraphNode) list" where
  "nodeMap graph = foldl (\<lambda>m node. AList.update (node_id node) node m) [] (nodes graph)"

definition findNodeReferers :: "'a RTKGraph_scheme \<Rightarrow> jsstring \<Rightarrow> GraphNode list" where
  "findNodeReferers graph nodeId =
     List.map_filter
       (\<lambda>edge. if edge_type edge = mnemonic_uses \<and> target edge = nodeId
               then map_of (nodeMap graph) (source edge) else None)
       (edges graph)"

text \<open>
  \<open>Array.prototype.slice(start, end)\<close> on integers: a negative index counts from the end
  of the array, either index is clamped to the array, and nothing is taken when the end
  is not after the start.
\<close>

definition relativeIndex :: "int \<Rightarrow> nat \<Rightarrow> nat" where
  "relativeIndex i len = (if i < 0 then nat (max (int len + i) 0) else min (nat i) len)"

definition slice :: "'a list \<Rightarrow> int \<Rightarrow> int \<Rightarrow> 'a list" where
  "slice xs start endIndex =
     (let k = relativeIndex start (length xs);
          final = relativeIndex endIndex (length xs)
      in take (final - k) (drop k xs))"

definition refererTreeNode :: "GraphNode \<Rightarrow> TreeNode" where
  "refererTreeNode refererGraphNode =
     TreeNode (node_id refererGraphNode) refererGraphNode (- 1) False False None [] (Some []) None"

definition summaryNode :: "jsstring \<Rightarrow> int \<Rightarrow> int \<Rightarrow> nat \<Rightarrow> TreeNode" where
  "summaryNode nodeId startIndex endIndex totalCount =
     (let remainingCount = int totalCount - endIndex;
          placeholderId = (if startIndex = 0 then nodeId @ asc ''_more_referers''
                           else nodeId @ asc ''_more_referers_'' @ numberToString endIndex)
      in TreeNode placeholderId
           \<lparr> node_id = placeholderId, node_type = Primitive, character = [0x2026],
             keyword = asc ''+'' @ numberToString remainingCount @ asc '' more'',
             rtkId = None, onReading = None, kunReading = None, jlptLevel = None,
             unicode = None, svgPath = None \<rparr>
           (- 1) False False None [] (Some [])
           (Some \<lparr> parentNodeId = nodeId, totalReferers = totalCount, currentIndex = endIndex \<rparr>))"

text \<open>
  \<open>buildReferersTree(nodeId, maxReferers, startIndex)\<close>. The source takes the page size
  and the start index as numbers and checks neither; the model takes them as integers
  of either sign. Sums are exact in the model, as they are in the source up to \<open>2^53\<close>
  in magnitude. Numbers that are not integers are outside the model.
\<close>

definition buildReferersTree ::
    "(jsstring \<Rightarrow> jsstring \<Rightarrow> int) \<Rightarrow> 'a RTKGraph_scheme \<Rightarrow> jsstring \<Rightarrow> int \<Rightarrow> int
       \<Rightarrow> TreeNode list" where
  "buildReferersTree localeCompare graph nodeId maxReferers startIndex =
     (let refererGraphNodes = findNodeReferers graph nodeId;
          endIndex = startIndex + maxReferers;
          limitedReferers = slice refererGraphNodes startIndex endIndex;
          refererTreeNodes = map refererTreeNode limitedReferers;
          refererTreeNodes =
            (if int (length refererGraphNodes) > endIndex
             then refererTreeNodes
                    @ [summaryNode nodeId startIndex endIndex (length refererGraphNodes)]
             else refererTreeNodes)
      in sortNodesByJLPTLevel localeCompare refererTreeNodes)"

section \<open>Tree transformer: the component tree\<close>

text \<open>
  The edge index of the constructor: the edges of the graph, of either type, grouped
  by their source in the order they occur.
\<close>

definition edgeMap :: "'a RTKGraph_scheme \<Rightarrow> (jsstring \<times> GraphEdge list) list" where
  "edgeMap graph =
     foldl (\<lambda>m edge. AList.update (source edge)
                       ((case map_of m (source edge) of Some es \<Rightarrow> es | None \<Rightarrow> []) @ [edge]) m)
       [] (edges graph)"

text \<open>
  The variables that the closure \<open>buildTreeNode\<close> shares with
  \<open>buildKanjiComponentTree\<close>: the set of the ids on the current path, the list of
  circular references and the list of all tree nodes created.
\<close>

record BuildState =
  visitedNodes :: "jsstring list"
  circularReferences :: "jsstring list"
  allTreeNodes :: "TreeNode list"

text \<open>
  The depth limit \<open>maxDepth\<close> is a number, compared with the depth, an integer, by
  \<open>depth > maxDepth\<close>. A finite limit compares as the greatest integer below or equal to it
  does; with \<open>Infinity\<close> or \<open>NaN\<close> the comparison is false at every depth, which is
  \<open>NoLimit\<close>; and \<open>-Infinity\<close> compares with the depths of a build, none of them negative,
  as every negative limit does.
\<close>

datatype DepthLimit = Limit int | NoLimit

fun exceeds :: "int \<Rightarrow> DepthLimit \<Rightarrow> bool" where
  "exceeds d (Limit m) = (d > m)"
| "exceeds d NoLimit = False"

text \<open>
  \<open>buildTreeNode\<close>, with the loop over the component edges as \<open>buildChildren\<close>. The
  depth is \<open>d\<close>. The tree node is pushed to \<open>allTreeNodes\<close> when it is created and gets
  its children afterwards; the list holds a reference to it, so the entry at its index
  is the node with its children once they are set.
\<close>

function buildTreeNode ::
    "(jsstring \<Rightarrow> jsstring \<Rightarrow> int) \<Rightarrow> 'a RTKGraph_scheme \<Rightarrow> DepthLimit \<Rightarrow> jsstring \<Rightarrow> int
       \<Rightarrow> jsstring option \<Rightarrow> BuildState \<Rightarrow> TreeNode option \<times> BuildState"
  and buildChildren ::
    "(jsstring \<Rightarrow> jsstring \<Rightarrow> int) \<Rightarrow> 'a RTKGraph_scheme \<Rightarrow> DepthLimit \<Rightarrow> GraphEdge list \<Rightarrow> int
       \<Rightarrow> jsstring \<Rightarrow> BuildState \<Rightarrow> TreeNode list \<times> BuildState"
  where
  "buildTreeNode localeCompare graph maxDepth nodeId d parentId st =
     (if exceeds d maxDepth then (None, st)
      else if nodeId \<in> set (visitedNodes st)
      then (None, st\<lparr> circularReferences := circularReferences st @ [nodeId] \<rparr>)
      else (case map_of (nodeMap graph) nodeId of
              None \<Rightarrow> (None, st)
            | Some graphNode \<Rightarrow>
                (case buildChildren localeCompare graph maxDepth
                        (case map_of (edgeMap graph) nodeId of Some es \<Rightarrow> es | None \<Rightarrow> [])
                        (d + 1) nodeId
                        (st\<lparr> visitedNodes := set_add (visitedNodes st) nodeId,
                            allTreeNodes := allTreeNodes st
                              @ [TreeNode nodeId graphNode d (d < 2) False parentId []
                                   None None] \<rparr>) of
                   (childNodes, st') \<Rightarrow>
                     (let treeNode = TreeNode nodeId graphNode d (d < 2) False parentId
                                       (sortNodesByJLPTLevel localeCompare childNodes) None None
                      in (Some treeNode,
                          st'\<lparr> visitedNodes := removeAll nodeId (visitedNodes st'),
                               allTreeNodes :=
                                 (allTreeNodes st')[length (allTreeNodes st) := treeNode] \<rparr>)))))"
| "buildChildren localeCompare graph maxDepth [] d parentId st = ([], st)"
| "buildChildren localeCompare graph maxDepth (edge # rest) d parentId st =
     (if edge_type edge = mnemonic_uses
      then (case buildTreeNode localeCompare graph maxDepth (target edge) d (Some parentId) st of
              (Some childNode, st') \<Rightarrow>
                (case buildChildren localeCompare graph maxDepth rest d parentId st' of
                   (childNodes, st'') \<Rightarrow> (childNode # childNodes, st''))
            | (None, st') \<Rightarrow> buildChildren localeCompare graph maxDepth rest d parentId st')
      else buildChildren localeCompare graph maxDepth rest d parentId st)"
  by pat_completeness auto

text \<open>
  The recursion ends without the help of the depth limit. A call of \<open>buildTreeNode\<close> that
  goes on to the children has put on the path an id of the node map that was not on it,
  and a call that returns leaves the path as it found it, so that the loop over the
  siblings goes on with the path it started with. The number of ids of the node map
  that are not on the path falls with every level of the descent.
\<close>

definition unvisited :: "'a RTKGraph_scheme \<Rightarrow> BuildState \<Rightarrow> nat" where
  "unvisited graph st = card (fst ` set (nodeMap graph) - set (visitedNodes st))"

lemma visitedNodes_restored:
  fixes graph :: "'a RTKGraph_scheme"
  shows "buildTreeNode_buildChildren_dom (Inl (lc, graph, maxDepth, nodeId, d, parentId, st))
    \<Longrightarrow> visitedNodes (snd (buildTreeNode lc graph maxDepth nodeId d parentId st)) = visitedNodes st"
  and "buildTreeNode_buildChildren_dom (Inr (lc, graph, maxDepth, es, d, pid, st))
    \<Longrightarrow> visitedNodes (snd (buildChildren lc graph maxDepth es d pid st)) = visitedNodes st"
proof (induction lc graph maxDepth nodeId d parentId st and lc graph maxDepth es d pid st
    rule: buildTreeNode_buildChildren.pinduct)
  case (1 lc graph maxDepth nodeId d parentId st)
  show ?case
  proof (cases "exceeds d maxDepth \<or> nodeId \<in> set (visitedNodes st)
      \<or> map_of (nodeMap graph) nodeId = None")
    case True
    then show ?thesis
      using "1.hyps" by (auto simp: buildTreeNode.psimps)
  next
    case False
    then obtain graphNode where gn: "map_of (nodeMap graph) nodeId = Some graphNode"
      and le: "\<not> exceeds d maxDepth" and fresh: "nodeId \<notin> set (visitedNodes st)"
      by auto
    let ?st1 = "st\<lparr> visitedNodes := set_add (visitedNodes st) nodeId,
                      allTreeNodes := allTreeNodes st
                        @ [TreeNode nodeId graphNode d (d < 2) False parentId [] None None] \<rparr>"
    let ?es = "case map_of (edgeMap graph) nodeId of Some es \<Rightarrow> es | None \<Rightarrow> []"
    obtain cs st2 where ch: "buildChildren lc graph maxDepth ?es (d + 1) nodeId ?st1 = (cs, st2)"
      by (cases "buildChildren lc graph maxDepth ?es (d + 1) nodeId ?st1") auto
    have "visitedNodes st2 = visitedNodes st @ [nodeId]"
      using "1.IH" [OF le fresh gn] ch fresh by (simp add: set_add_def)
    then have "removeAll nodeId (visitedNodes st2) = visitedNodes st"
      using fresh by simp
    then show ?thesis
      using "1.hyps" gn le fresh ch by (simp add: buildTreeNode.psimps Let_def)
  qed
next
  case (2 lc graph maxDepth d parentId st)
  then show ?case by (simp add: buildChildren.psimps)
next
  case (3 lc graph maxDepth edge rest d parentId st)
  show ?case
  proof (cases "edge_type edge = mnemonic_uses")
    case False
    with "3.IH"(4) [OF False] "3.hyps" show ?thesis by (simp add: buildChildren.psimps)
  next
    case True
    obtain r1 st1 where
      b: "buildTreeNode lc graph maxDepth (target edge) d (Some parentId) st = (r1, st1)"
      by (cases "buildTreeNode lc graph maxDepth (target edge) d (Some parentId) st") auto
    have v1: "visitedNodes st1 = visitedNodes st"
      using "3.IH"(1) [OF True] b by simp
    show ?thesis
    proof (cases r1)
      case None
      from "3.IH"(2) [OF True b [symmetric] None] v1 show ?thesis
        using "3.hyps" True b None by (simp add: buildChildren.psimps)
    next
      case (Some t)
      obtain cs2 st2 where rest: "buildChildren lc graph maxDepth rest d parentId st1 = (cs2, st2)"
        by (cases "buildChildren lc graph maxDepth rest d parentId st1") auto
      from "3.IH"(3) [OF True b [symmetric] Some] v1 rest show ?thesis
        using "3.hyps" True b Some by (simp add: buildChildren.psimps)
    qed
  qed
qed

lemma buildTreeNode_buildChildren_total:
  "buildTreeNode_buildChildren_dom x"
proof -
  have "All buildTreeNode_buildChildren_dom"
  proof (relation "inv_image (less_than <*lex*> less_than <*lex*> less_than)
          (\<lambda>x. case x of
             Inl (lc, graph, maxDepth, nodeId, d, parentId, st) \<Rightarrow>
               (unvisited graph st, 0, 0)
           | Inr (lc, graph, maxDepth, es, d, parentId, st) \<Rightarrow>
               (unvisited graph st, 1, length es))", goal_cases)
    case 1
    show ?case by auto
  next
    case (2 lc graph maxDepth nodeId d parentId st graphNode)
    have "nodeId \<in> fst ` set (nodeMap graph)"
      using 2(3) by (metis map_of_eq_None_iff option.distinct(1))
    then have "fst ` set (nodeMap graph) - set (visitedNodes st @ [nodeId])
        \<subset> fst ` set (nodeMap graph) - set (visitedNodes st)"
      using 2(2) by auto
    then have "card (fst ` set (nodeMap graph) - set (visitedNodes st @ [nodeId]))
        < card (fst ` set (nodeMap graph) - set (visitedNodes st))"
      by (intro psubset_card_mono) simp_all
    then have "unvisited graph (st\<lparr> visitedNodes := set_add (visitedNodes st) nodeId,
                              allTreeNodes := allTreeNodes st
                                @ [TreeNode nodeId graphNode d (d < 2) False parentId []
                                     None None] \<rparr>) < unvisited graph st"
      using 2(2) by (simp add: unvisited_def set_add_def)
    then show ?case by simp
  next
    case 3
    then show ?case by simp
  next
    case (4 lc graph maxDepth edge rest d parentId st x y)
    then have "visitedNodes y = visitedNodes st"
      using visitedNodes_restored(1) [OF 4(4)] by (metis snd_conv)
    then show ?case by (simp add: unvisited_def)
  next
    case (5 lc graph maxDepth edge rest d parentId st x y x2)
    then have "visitedNodes y = visitedNodes st"
      using visitedNodes_restored(1) [OF 5(4)] by (metis snd_conv)
    then show ?case by (simp add: unvisited_def)
  next
    case 6
    then show ?case by simp
  qed
  then show ?thesis by (rule spec)
qed

termination buildTreeNode
  by (rule allI) (rule buildTreeNode_buildChildren_total)

declare buildTreeNode.simps [simp del]

text \<open>The errors of \<open>buildKanjiComponentTree\<close>, each with the id it names.\<close>

datatype TreeError = KanjiNodeNotFound jsstring | NotAKanjiNode jsstring | FailedToBuildTree jsstring

text \<open>
  \<open>buildKanjiComponentTree(kanjiId, maxDepth)\<close>; a call without \<open>maxDepth\<close> is the call
  with \<open>Limit 5\<close>. \<open>Math.max\<close> over the depths is taken over a list that holds the root.
\<close>

definition buildKanjiComponentTree ::
    "(jsstring \<Rightarrow> jsstring \<Rightarrow> int) \<Rightarrow> 'a RTKGraph_scheme \<Rightarrow> jsstring \<Rightarrow> DepthLimit
       \<Rightarrow> TreeError + TreeTransformationResult" where
  "buildKanjiComponentTree localeCompare graph kanjiId maxDepth =
     (case map_of (nodeMap graph) kanjiId of
        None \<Rightarrow> Inl (KanjiNodeNotFound kanjiId)
      | Some rootNode \<Rightarrow>
          if node_type rootNode \<noteq> Kanji then Inl (NotAKanjiNode kanjiId)
          else (case buildTreeNode localeCompare graph maxDepth kanjiId 0 None
                       \<lparr> visitedNodes = [], circularReferences = [], allTreeNodes = [] \<rparr> of
                  (None, st) \<Rightarrow> Inl (FailedToBuildTree kanjiId)
                | (Some r, st) \<Rightarrow>
                    Inr \<lparr> root = r,
                          allNodes = allTreeNodes st,
                          sourceGraph = \<lparr> nodes = nodes graph, edges = edges graph \<rparr>,
                          TreeTransformationResult.metadata =
                            \<lparr> totalNodes = length (allTreeNodes st),
                              maxTreeDepth = foldl max (depth r) (map depth (allTreeNodes st)),
                              TreeMetadata.circularReferences = circularReferences st \<rparr> \<rparr>))"

section \<open>Notions used to state the properties\<close>

text \<open>
  The (source, target) pairs of the \<open>mnemonic_uses\<close> edges of an edge list, in order;
  the two edges that are pushed together for one such pair; and the pairs that a list
  of kanji rows contributes when the \<open>i\<close>-th row links the \<open>i\<close>-th list of targets.
\<close>

definition usesPairs :: "GraphEdge list \<Rightarrow> (jsstring \<times> jsstring) list" where
  "usesPairs es =
     map (\<lambda>e. (source e, target e)) (filter (\<lambda>e. edge_type e = mnemonic_uses) es)"

definition mirroredPair :: "jsstring \<times> jsstring \<Rightarrow> GraphEdge list" where
  "mirroredPair p =
     [\<lparr> source = fst p, target = snd p, edge_type = mnemonic_uses \<rparr>,
      \<lparr> source = snd p, target = fst p, edge_type = used_in_mnemonic \<rparr>]"

definition rowPairs :: "KanjiData list \<Rightarrow> jsstring list list \<Rightarrow> (jsstring \<times> jsstring) list" where
  "rowPairs kanjiData targets =
     concat (map2 (\<lambda>k ts. map (Pair (generateNodeId (asc ''kanji'') (kanji k))) ts)
               kanjiData targets)"

text \<open>The keyword tokens of all kanji rows, in the order the build meets them.\<close>

definition mnemonicTokens :: "KanjiData list \<Rightarrow> jsstring list" where
  "mnemonicTokens kanjiData = concat (map (\<lambda>k. parseComponents (components k)) kanjiData)"

text \<open>
  The difficulty rank a node is sorted by: the rank of its level, and 6 without a level.
  A comparison is consistent when it is total and transitive as an order.
\<close>

definition levelRank :: "TreeNode \<Rightarrow> int" where
  "levelRank n = (case jlptLevel (data n) of Some l \<Rightarrow> JLPT_ORDER l | None \<Rightarrow> 6)"

definition consistentCompare :: "('a \<Rightarrow> 'a \<Rightarrow> int) \<Rightarrow> bool" where
  "consistentCompare c \<longleftrightarrow>
     (\<forall>a b. 0 < c a b \<longrightarrow> c b a \<le> 0) \<and> (\<forall>a b d. c a b \<le> 0 \<and> c b d \<le> 0 \<longrightarrow> c a d \<le> 0)"

text \<open>
  A kanji line is rejected when, after padding and trimming, its character field is
  empty or both keyword fields are; \<open>rowData\<close> is the record read from a line.
\<close>

definition rowRejected :: "jsstring \<Rightarrow> bool" where
  "rowRejected line \<longleftrightarrow>
     (let row = padFields (parseCSVLine line)
      in trim (row ! 0) = [] \<or> (trim (row ! 3) = [] \<and> trim (row ! 4) = []))"

definition rowData :: "jsstring \<Rightarrow> KanjiData" where
  "rowData line =
     (let row = padFields (parseCSVLine line)
      in \<lparr> kanji = trim (row ! 0),
           id5th = parseOptionalNumber (row ! 1),
           id6th = parseOptionalNumber (row ! 2),
           keyword5th = trim (row ! 3),
           keyword6th = trim (row ! 4),
           components = trim (row ! 5),
           KanjiData.onReading = trim (row ! 6),
           KanjiData.kunReading = trim (row ! 7) \<rparr>)"

text \<open>
  What the examples read off a tree build: the ids and depths of all nodes created, in
  the order of their creation, and the list of circular references.
\<close>

definition treeSummary ::
    "TreeError + TreeTransformationResult \<Rightarrow> TreeError + (jsstring \<times> int) list \<times> jsstring list" where
  "treeSummary =
     map_sum id (\<lambda>r. (map (\<lambda>n. (tree_id n, depth n)) (allNodes r),
                       TreeMetadata.circularReferences (TreeTransformationResult.metadata r)))"

section \<open>Example inputs\<close>

text \<open>
  A collation for the examples: the order of the code units. Any host collation can
  take its place in the theorems below.
\<close>

definition codeUnitCompare :: "jsstring \<Rightarrow> jsstring \<Rightarrow> int" where
  "codeUnitCompare a b = (if a < b then - 1 else if b < a then 1 else 0)"

definition exampleNode :: "NodeType \<Rightarrow> string \<Rightarrow> string \<Rightarrow> JLPTLevel option \<Rightarrow> GraphNode" where
  "exampleNode ty ident kw lvl =
     \<lparr> node_id = asc ident, node_type = ty, character = asc kw, keyword = asc kw,
       rtkId = None, onReading = None, kunReading = None, jlptLevel = lvl,
       unicode = None, svgPath = None \<rparr>"

definition usesEdge :: "string \<Rightarrow> string \<Rightarrow> GraphEdge list" where
  "usesEdge a b =
     [\<lparr> source = asc a, target = asc b, edge_type = mnemonic_uses \<rparr>,
      \<lparr> source = asc b, target = asc a, edge_type = used_in_mnemonic \<rparr>]"

text \<open>Two kanji whose mnemonics use a third.\<close>

definition refererGraph :: RTKGraph where
  "refererGraph =
     \<lparr> nodes = [exampleNode Kanji ''kanji_A'' ''a'' None,
                exampleNode Kanji ''kanji_B'' ''b'' (Some N3),
                exampleNode Kanji ''kanji_C'' ''c'' (Some N5)],
       edges = usesEdge ''kanji_B'' ''kanji_A'' @ usesEdge ''kanji_C'' ''kanji_A'' \<rparr>"

text \<open>Rows for the examples: a kanji row with a 5th-edition keyword, a primitive row.\<close>

definition exampleKanji :: "jsstring \<Rightarrow> string \<Rightarrow> string \<Rightarrow> KanjiData" where
  "exampleKanji ch kw comps =
     \<lparr> kanji = ch, id5th = None, id6th = None, keyword5th = asc kw, keyword6th = [],
       components = asc comps, KanjiData.onReading = [], KanjiData.kunReading = [] \<rparr>"

definition examplePrimitive :: "jsstring \<Rightarrow> jsstring option \<Rightarrow> PrimitiveData" where
  "examplePrimitive path uni =
     \<lparr> oldPath = path, parentFrame = None, PrimitiveData.unicode = uni, nextFrame = None,
       realHeisig = None \<rparr>"

text \<open>
  Two rows whose characters (U+3005 and U+30F6) lie outside the ranges that
  \<open>generateNodeId\<close> keeps: both get the id \<open>kanji__\<close>.
\<close>

definition collidingKanji :: "KanjiData list" where
  "collidingKanji =
     [exampleKanji [0x3005] ''repeat'' '''', exampleKanji [0x30F6] ''counter'' '''']"

text \<open>
  A kanji (U+660E) whose mnemonic names \<open>sun\<close> twice, beside the kanji (U+65E5) that
  \<open>sun\<close> is mapped to; and the same with the token once but the row twice.
\<close>

definition repeatedTokenRows :: "KanjiData list" where
  "repeatedTokenRows =
     [exampleKanji [0x660E] ''bright'' ''sun;sun'', exampleKanji [0x65E5] ''day'' '''']"

definition duplicatedRows :: "KanjiData list" where
  "duplicatedRows =
     [exampleKanji [0x660E] ''bright'' ''sun'', exampleKanji [0x660E] ''bright'' ''sun'',
      exampleKanji [0x65E5] ''day'' '''']"

text \<open>
  One kanji row whose only token names no node; two variants of the token, and one
  whose token is the name of a property inherited from \<open>Object.prototype\<close>.
\<close>

definition missingFooRows :: "KanjiData list" where
  "missingFooRows = [exampleKanji [0x660E] ''bright'' ''foo'']"

definition missingBarRows :: "KanjiData list" where
  "missingBarRows = [exampleKanji [0x660E] ''bright'' ''bar'']"

definition inheritedNameRows :: "KanjiData list" where
  "inheritedNameRows = [exampleKanji [0x660E] ''bright'' ''constructor'']"

text \<open>
  A kanji (U+79C1) whose mnemonic names \<open>elbow\<close> and the kanji (U+8098) whose keyword is
  \<open>elbow\<close>; and three primitive rows for the character U+53B6, which the override
  table maps \<open>elbow\<close> to, that differ in the name of the file: the character itself,
  the keyword \<open>elbow\<close> after a frame prefix, and another keyword after a frame prefix.
\<close>

definition elbowRows :: "KanjiData list" where
  "elbowRows =
     [exampleKanji [0x79C1] ''private'' ''elbow'', exampleKanji [0x8098] ''elbow'' '''']"

definition characterFilePrimitive :: PrimitiveData where
  "characterFilePrimitive = examplePrimitive ([0x53B6] @ asc ''.svg'') (Some [0x53B6])"

definition elbowFilePrimitive :: PrimitiveData where
  "elbowFilePrimitive = examplePrimitive (asc ''p229.2-elbow.svg'') (Some [0x53B6])"

definition myselfFilePrimitive :: PrimitiveData where
  "myselfFilePrimitive = examplePrimitive (asc ''p229.2-myself.svg'') (Some [0x53B6])"

text \<open>
  Tree nodes with the levels N3, N5, none, N1, in this order; and two nodes of level
  N5 whose characters are in descending order.
\<close>

definition levelNode :: "string \<Rightarrow> string \<Rightarrow> JLPTLevel option \<Rightarrow> TreeNode" where
  "levelNode ident ch lvl =
     TreeNode (asc ident) (exampleNode Kanji ident ch lvl) 1 True False None [] None None"

definition levelNodes :: "TreeNode list" where
  "levelNodes =
     [levelNode ''kanji_c'' ''c'' (Some N3), levelNode ''kanji_b'' ''b'' (Some N5),
      levelNode ''kanji_d'' ''d'' None, levelNode ''kanji_a'' ''a'' (Some N1)]"

definition sameLevelNodes :: "TreeNode list" where
  "sameLevelNodes =
     [levelNode ''kanji_b'' ''b'' (Some N5), levelNode ''kanji_a'' ''a'' (Some N5)]"

text \<open>Fifteen kanji whose mnemonics use a sixteenth.\<close>

definition fifteenGraph :: RTKGraph where
  "fifteenGraph =
     \<lparr> nodes = map (\<lambda>i. exampleNode Kanji (''kanji_'' @ i) i None)
                [''A'', ''r1'', ''r2'', ''r3'', ''r4'', ''r5'', ''r6'', ''r7'', ''r8'', ''r9'', ''r10'',
                 ''r11'', ''r12'', ''r13'', ''r14'', ''r15''],
       edges = concat (map (\<lambda>i. usesEdge (''kanji_'' @ i) ''kanji_A'')
                [''r1'', ''r2'', ''r3'', ''r4'', ''r5'', ''r6'', ''r7'', ''r8'', ''r9'', ''r10'',
                 ''r11'', ''r12'', ''r13'', ''r14'', ''r15'']) \<rparr>"

text \<open>
  A case conversion for the examples (ASCII letters only), a line of four fields, a
  line of three fields and a line whose character field is blank.
\<close>

definition asciiToLowerCase :: "jsstring \<Rightarrow> jsstring" where
  "asciiToLowerCase s = map asciiLower s"

definition shortRow :: jsstring where
  "shortRow = [0x65E5] @ asc '',1,2,day''"

definition noKeywordRow :: jsstring where
  "noKeywordRow = [0x6708] @ asc '',3,4''"

definition noCharacterRow :: jsstring where
  "noCharacterRow = asc '' ,5,6,moon,month,,,''"

text \<open>
  A kanji whose mnemonic uses the kanji itself, with the build state in which that
  kanji is the root and is on the path; two kanji whose mnemonics use each other; and
  a kanji reached from the root along two branches.
\<close>

definition selfLoopGraph :: RTKGraph where
  "selfLoopGraph =
     \<lparr> nodes = [exampleNode Kanji ''kanji_A'' ''a'' None],
       edges = usesEdge ''kanji_A'' ''kanji_A'' \<rparr>"

definition selfLoopPathState :: BuildState where
  "selfLoopPathState =
     \<lparr> visitedNodes = [asc ''kanji_A''], circularReferences = [],
       allTreeNodes = [TreeNode (asc ''kanji_A'') (exampleNode Kanji ''kanji_A'' ''a'' None)
                         0 True False None [] None None] \<rparr>"

definition mutualGraph :: RTKGraph where
  "mutualGraph =
     \<lparr> nodes = [exampleNode Kanji ''kanji_A'' ''a'' None, exampleNode Kanji ''kanji_B'' ''b'' None],
       edges = usesEdge ''kanji_A'' ''kanji_B'' @ usesEdge ''kanji_B'' ''kanji_A'' \<rparr>"

definition diamondGraph :: RTKGraph where
  "diamondGraph =
     \<lparr> nodes = [exampleNode Kanji ''kanji_A'' ''a'' None, exampleNode Kanji ''kanji_B'' ''b'' None,
                exampleNode Kanji ''kanji_C'' ''c'' None, exampleNode Kanji ''kanji_D'' ''d'' None],
       edges = usesEdge ''kanji_A'' ''kanji_B'' @ usesEdge ''kanji_A'' ''kanji_C''
             @ usesEdge ''kanji_B'' ''kanji_D'' @ usesEdge ''kanji_C'' ''kanji_D'' \<rparr>"

section \<open>Evaluation of the examples\<close>

named_theorems js_eval

lemmas [js_eval] = asc_def generateNodeId_def sanitize_def exampleKanji_def createKanjiNode_def
  parseComponents_def trim_def isWhiteSpace_def resolveReference_def resolveComponentKeyword_def
  KEYWORD_TO_CHARACTER_MAPPINGS_def set_add_def Let_def or_number_def or_undefined_def
  mirroredPair_def createMnemonicEdges_def kanjiNodeMap_def primitiveNodeMap_def buildGraph_def
  keywordSearch_def shouldPreferKanji_def PREFER_KANJI_KEYWORDS_def objectPrototypeKeys_def
  isComplexKanjiExcluded_def COMPLEX_KANJI_EXCLUSIONS_def mnemonicTokens_def
  createPrimitiveNode_def examplePrimitive_def stripImageExtension_def stripFramePrefix_def
  asciiLower_def isDigit_def suffix_to_prefix
  parseCSVLine_def padFields_def parseOptionalNumber_def parseInt_def digitsValue_def
  validateKanjiData_def parseKanjiRow_def parseKanjiCSV_def rowRejected_def rowData_def
  asciiToLowerCase_def decimal.simps

section \<open>Sibling ordering: the sort permutes its input\<close>

lemma mset_insort_cmp: "mset (insort_cmp c x xs) = add_mset x (mset xs)"
  by (induction xs) auto

lemma mset_array_sort: "mset (array_sort c xs) = mset xs"
  unfolding array_sort_def by (induction xs) (auto simp: mset_insort_cmp)

lemma mset_sortNodesByJLPTLevel: "mset (sortNodesByJLPTLevel lc xs) = mset xs"
  unfolding sortNodesByJLPTLevel_def Let_def
  by (simp add: mset_array_sort union_commute)

lemma set_sortNodesByJLPTLevel: "set (sortNodesByJLPTLevel lc xs) = set xs"
  using mset_sortNodesByJLPTLevel [of lc xs] by (metis set_mset_mset)

lemma sortNodesByJLPTLevel_Nil: "sortNodesByJLPTLevel lc [] = []"
  by (simp add: sortNodesByJLPTLevel_def array_sort_def)

section \<open>Sibling ordering: order and stability\<close>

lemma insort_cmp_split:
  "insort_cmp c x ys = takeWhile (\<lambda>y. 0 < c x y) ys @ x # dropWhile (\<lambda>y. 0 < c x y) ys"
  by (induction ys) auto

lemma set_insort_cmp: "set (insort_cmp c x ys) = insert x (set ys)"
  by (induction ys) auto

lemma set_array_sort: "set (array_sort c xs) = set xs"
  unfolding array_sort_def by (induction xs) (auto simp: set_insort_cmp)

lemma sorted_key_insort_cmp:
  assumes le: "\<And>x y. c x y \<le> 0 \<Longrightarrow> f x \<le> f y" and gt: "\<And>x y. 0 < c x y \<Longrightarrow> f y \<le> f x"
  shows "sorted (map f ys) \<Longrightarrow> sorted (map (f :: 'a \<Rightarrow> int) (insort_cmp c x ys))"
proof (induction ys)
  case Nil
  then show ?case by simp
next
  case (Cons y ys)
  show ?case
  proof (cases "c x y \<le> 0")
    case True
    then have "f x \<le> f y" by (rule le)
    with Cons.prems True show ?thesis by auto
  next
    case False
    then have "f y \<le> f x" using gt [of x y] by simp
    with Cons False show ?thesis by (auto simp: set_insort_cmp)
  qed
qed

lemma sorted_key_array_sort:
  assumes "\<And>x y. c x y \<le> 0 \<Longrightarrow> f x \<le> f y" and "\<And>x y. 0 < c x y \<Longrightarrow> f y \<le> f x"
  shows "sorted (map (f :: 'a \<Rightarrow> int) (array_sort c xs))"
  unfolding array_sort_def
  by (induction xs) (simp_all add: sorted_key_insort_cmp [OF assms])

lemma filter_insort_cmp_stable:
  assumes "\<And>y. P x \<Longrightarrow> P y \<Longrightarrow> c x y \<le> 0"
  shows "filter P (insort_cmp c x ys) = (if P x then x # filter P ys else filter P ys)"
proof (induction ys)
  case Nil
  then show ?case by simp
next
  case (Cons y ys)
  then show ?case using assms [of y] by auto
qed

lemma filter_array_sort_stable:
  assumes "\<And>x y. P x \<Longrightarrow> P y \<Longrightarrow> c x y \<le> 0"
  shows "filter P (array_sort c xs) = filter P xs"
  unfolding array_sort_def
  by (induction xs) (simp_all add: filter_insort_cmp_stable assms)

lemma consistentCompare_total: "consistentCompare c \<Longrightarrow> 0 < c a b \<Longrightarrow> c b a \<le> 0"
  unfolding consistentCompare_def by blast

lemma consistentCompare_trans:
  "consistentCompare c \<Longrightarrow> c a b \<le> 0 \<Longrightarrow> c b d \<le> 0 \<Longrightarrow> c a d \<le> 0"
  unfolding consistentCompare_def by blast

lemma sorted_wrt_insort_cmp:
  assumes "consistentCompare c" "sorted_wrt (\<lambda>a b. c a b \<le> 0) ys"
  shows "sorted_wrt (\<lambda>a b. c a b \<le> 0) (insort_cmp c x ys)"
  using assms(2)
proof (induction ys)
  case Nil
  then show ?case by simp
next
  case (Cons y ys)
  show ?case
  proof (cases "c x y \<le> 0")
    case True
    have "c x z \<le> 0" if "z \<in> set ys" for z
    proof -
      have "c y z \<le> 0" using Cons.prems that by simp
      with True show ?thesis by (rule consistentCompare_trans [OF assms(1)])
    qed
    with True Cons.prems show ?thesis by simp
  next
    case False
    then have "c y x \<le> 0" using consistentCompare_total [OF assms(1), of x y] by simp
    moreover have "sorted_wrt (\<lambda>a b. c a b \<le> 0) (insort_cmp c x ys)"
      using Cons by simp
    ultimately show ?thesis using False Cons.prems by (simp add: set_insort_cmp)
  qed
qed

lemma sorted_wrt_array_sort:
  assumes "consistentCompare c"
  shows "sorted_wrt (\<lambda>a b. c a b \<le> 0) (array_sort c xs)"
  unfolding array_sort_def
  by (induction xs) (simp_all add: sorted_wrt_insort_cmp [OF assms])

lemma JLPT_ORDER_range: "1 \<le> JLPT_ORDER l \<and> JLPT_ORDER l \<le> 5"
  by (cases l) (simp_all add: JLPT_ORDER_def)

lemma JLPT_ORDER_inj: "JLPT_ORDER l = JLPT_ORDER l' \<longleftrightarrow> l = l'"
  by (cases l; cases l') (simp_all add: JLPT_ORDER_def)

lemma levelRank_Some: "jlptLevel (data a) = Some l \<Longrightarrow> levelRank a = JLPT_ORDER l"
  by (simp add: levelRank_def)

lemma levelRank_None: "jlptLevel (data a) = None \<Longrightarrow> levelRank a = 6"
  by (simp add: levelRank_def)

lemma compareNodes_le_rank: "compareNodes lc a b \<le> 0 \<Longrightarrow> levelRank a \<le> levelRank b"
proof (cases "jlptLevel (data a)"; cases "jlptLevel (data b)")
  fix l assume "jlptLevel (data a) = Some l" "jlptLevel (data b) = None"
  then show "levelRank a \<le> levelRank b"
    using JLPT_ORDER_range [of l] by (simp add: levelRank_def)
qed (simp_all add: compareNodes_def levelRank_def)

lemma compareNodes_gt_rank: "0 < compareNodes lc a b \<Longrightarrow> levelRank b \<le> levelRank a"
proof (cases "jlptLevel (data a)"; cases "jlptLevel (data b)")
  fix l assume "jlptLevel (data a) = None" "jlptLevel (data b) = Some l"
  then show "levelRank b \<le> levelRank a"
    using JLPT_ORDER_range [of l] by (simp add: levelRank_def)
qed (simp_all add: compareNodes_def levelRank_def)

lemma compareNodes_same_level:
  "jlptLevel (data a) = Some l \<Longrightarrow> jlptLevel (data b) = Some l \<Longrightarrow> compareNodes lc a b \<le> 0"
  by (simp add: compareNodes_def)

lemma compareNodes_absent:
  "jlptLevel (data a) = None \<Longrightarrow> jlptLevel (data b) = None
   \<Longrightarrow> compareNodes lc a b = lc (sortChar a) (sortChar b)"
  by (simp add: compareNodes_def)

lemma consistent_compareNodes:
  assumes "consistentCompare lc"
  shows "consistentCompare (compareNodes lc)"
  unfolding consistentCompare_def
proof (intro conjI allI impI)
  fix a b
  assume "0 < compareNodes lc a b"
  then show "compareNodes lc b a \<le> 0"
    using consistentCompare_total [OF assms, of "sortChar a" "sortChar b"]
    by (cases "jlptLevel (data a)"; cases "jlptLevel (data b)") (simp_all add: compareNodes_def)
next
  fix a b d
  assume "compareNodes lc a b \<le> 0 \<and> compareNodes lc b d \<le> 0"
  then show "compareNodes lc a d \<le> 0"
    using consistentCompare_trans [OF assms, of "sortChar a" "sortChar b" "sortChar d"]
    by (cases "jlptLevel (data a)"; cases "jlptLevel (data b)"; cases "jlptLevel (data d)")
      (simp_all add: compareNodes_def)
qed

lemma consistent_codeUnitCompare: "consistentCompare codeUnitCompare"
  unfolding consistentCompare_def codeUnitCompare_def by (auto split: if_splits)

lemma sortNodes_decompose:
  "sortNodesByJLPTLevel lc ns =
     array_sort (compareNodes lc) (filter (\<lambda>n. \<not> isMoreNode n) ns) @ filter isMoreNode ns"
  by (simp add: sortNodesByJLPTLevel_def Let_def)

lemma levelNodes_regular: "filter isMoreNode levelNodes = [] \<and> filter (\<lambda>n. \<not> isMoreNode n) levelNodes = levelNodes"
  by (simp add: levelNodes_def levelNode_def isMoreNode_def asc_def)

lemma levelNodes_sorted:
  "sortNodesByJLPTLevel codeUnitCompare levelNodes =
     [levelNode ''kanji_b'' ''b'' (Some N5), levelNode ''kanji_c'' ''c'' (Some N3),
      levelNode ''kanji_a'' ''a'' (Some N1), levelNode ''kanji_d'' ''d'' None]"
  by (simp add: sortNodes_decompose levelNodes_regular)
    (simp add: levelNodes_def levelNode_def exampleNode_def array_sort_def compareNodes_def JLPT_ORDER_def)

lemma sameLevelNodes_sorted:
  "sortNodesByJLPTLevel codeUnitCompare sameLevelNodes = sameLevelNodes"
  by (simp add: sortNodes_decompose sameLevelNodes_def levelNode_def exampleNode_def isMoreNode_def
      array_sort_def compareNodes_def JLPT_ORDER_def asc_def)

section \<open>Node ids of a build\<close>

lemma distinct_fold_update:
  "distinct (map fst m) \<Longrightarrow> distinct (map fst (foldl (\<lambda>m x. AList.update (f x) (g x) m) m xs))"
  by (induction xs arbitrary: m) (simp_all add: distinct_update)

lemma set_alist_update: "set (AList.update k v al) \<subseteq> insert (k, v) (set al)"
  by (induction al) auto

lemma fold_update_entries:
  "(\<And>k v. (k, v) \<in> set m \<Longrightarrow> P k v) \<Longrightarrow> (\<And>x. x \<in> set xs \<Longrightarrow> P (f x) (g x))
   \<Longrightarrow> (k, v) \<in> set (foldl (\<lambda>m x. AList.update (f x) (g x) m) m xs) \<Longrightarrow> P k v"
proof (induction xs arbitrary: m)
  case Nil
  then show ?case by simp
next
  case (Cons x xs)
  have *: "\<And>k v. (k, v) \<in> set (AList.update (f x) (g x) m) \<Longrightarrow> P k v"
    using Cons.prems(1,2) set_alist_update [of "f x" "g x" m] by auto
  show ?case
    using Cons.IH [of "AList.update (f x) (g x) m"] * Cons.prems(2,3) by simp
qed

lemma kanjiNodeMap_entries:
  assumes "(k, n) \<in> set (kanjiNodeMap kd jm)"
  shows "k = node_id n \<and> prefix (asc ''kanji_'') (node_id n)"
proof -
  have "(k, n) \<in> set (foldl (\<lambda>m x. AList.update (node_id (createKanjiNode x jm)) (createKanjiNode x jm) m) [] kd)"
    using assms by (simp add: kanjiNodeMap_def Let_def)
  then show ?thesis
    by (rule fold_update_entries [rotated 2])
      (simp_all add: createKanjiNode_def generateNodeId_def asc_def)
qed

lemma primitiveNodeMap_entries:
  assumes "(k, n) \<in> set (primitiveNodeMap pd)"
  shows "k = node_id n \<and> prefix (asc ''primitive_'') (node_id n)"
proof -
  have "(k, n) \<in> set (foldl (\<lambda>m x. AList.update (node_id (createPrimitiveNode x)) (createPrimitiveNode x) m) [] pd)"
    using assms by (simp add: primitiveNodeMap_def Let_def)
  then show ?thesis
    by (rule fold_update_entries [rotated 2])
      (simp_all add: createPrimitiveNode_def generateNodeId_def asc_def Let_def)
qed

lemma map_fst_eq_node_id:
  "\<forall>(k, n) \<in> set m. k = node_id n \<Longrightarrow> map (node_id \<circ> snd) m = map fst m"
  by (induction m) auto

lemma distinct_kanjiNodeMap: "distinct (map fst (kanjiNodeMap kd jm))"
  unfolding kanjiNodeMap_def Let_def
  using distinct_fold_update [of "[]" "\<lambda>k. node_id (createKanjiNode k jm)" "\<lambda>k. createKanjiNode k jm" kd]
  by simp

lemma distinct_primitiveNodeMap: "distinct (map fst (primitiveNodeMap pd))"
  unfolding primitiveNodeMap_def Let_def
  using distinct_fold_update [of "[]" "\<lambda>p. node_id (createPrimitiveNode p)" createPrimitiveNode pd]
  by simp

lemma kanji_primitive_prefix:
  assumes "prefix (asc ''kanji_'') s" "prefix (asc ''primitive_'') t"
  shows "s \<noteq> t"
proof -
  obtain x y where "s = asc ''kanji_'' @ x" "t = asc ''primitive_'' @ y"
    using assms by (auto simp: prefix_def)
  then have "hd s = 107" "hd t = 112" by (simp_all add: asc_def)
  then show ?thesis by auto
qed

lemma distinct_node_ids:
  "distinct (map node_id (map snd (kanjiNodeMap kd jm) @ map snd (primitiveNodeMap pd)))"
proof -
  have k: "map node_id (map snd (kanjiNodeMap kd jm)) = map fst (kanjiNodeMap kd jm)"
    using map_fst_eq_node_id [of "kanjiNodeMap kd jm"] kanjiNodeMap_entries by fastforce
  have p: "map node_id (map snd (primitiveNodeMap pd)) = map fst (primitiveNodeMap pd)"
    using map_fst_eq_node_id [of "primitiveNodeMap pd"] primitiveNodeMap_entries by fastforce
  have "node_id a \<noteq> node_id b"
    if a: "a \<in> snd ` set (kanjiNodeMap kd jm)" and b: "b \<in> snd ` set (primitiveNodeMap pd)" for a b
  proof -
    obtain ka where "(ka, a) \<in> set (kanjiNodeMap kd jm)" using a by auto
    then have "prefix (asc ''kanji_'') (node_id a)" using kanjiNodeMap_entries by blast
    moreover obtain kb where "(kb, b) \<in> set (primitiveNodeMap pd)" using b by auto
    then have "prefix (asc ''primitive_'') (node_id b)" using primitiveNodeMap_entries by blast
    ultimately show ?thesis by (rule kanji_primitive_prefix)
  qed
  then have "set (map fst (kanjiNodeMap kd jm)) \<inter> set (map fst (primitiveNodeMap pd)) = {}"
    unfolding k [symmetric] p [symmetric] by auto
  then show ?thesis
    using distinct_kanjiNodeMap [of kd jm] distinct_primitiveNodeMap [of pd] k p
    by (simp del: map_map)
qed

lemma duplicateScan_distinct:
  "distinct (map node_id ns) \<Longrightarrow> set (map node_id ns) \<inter> set ids = {}
   \<Longrightarrow> duplicateScan ns (ids, d) = (ids @ map node_id ns, d)"
  by (induction ns arbitrary: ids) (auto simp: set_add_def)

lemma exampleKanji_id:
  "node_id (createKanjiNode (exampleKanji ch kw comps) jm) = asc ''kanji_'' @ map sanitize ch"
  by (simp add: createKanjiNode_def exampleKanji_def generateNodeId_def asc_def)

lemma parseComponents_empty: "parseComponents [] = []"
  by (simp add: parseComponents_def trim_def)

lemma collidingKanji_nodes:
  "kanjiNodeMap collidingKanji None =
     [(asc ''kanji__'', createKanjiNode (exampleKanji [0x30F6] ''counter'' '''') None)]"
  by (simp add: kanjiNodeMap_def collidingKanji_def exampleKanji_id sanitize_def asc_def)

lemma collidingKanji_build:
  "buildValidatedGraph 0 (Some collidingKanji) (Some []) None =
     Inr (\<lparr> nodes = [createKanjiNode (exampleKanji [0x30F6] ''counter'' '''') None],
            edges = [],
            metadata = \<lparr> totalKanji = 1, totalPrimitives = 0, totalEdges = 0,
                         buildTimestamp = 0 \<rparr>,
            validation = \<lparr> missingComponents = [], duplicateNodes = [] \<rparr> \<rparr>, [])"
  apply (simp add: buildValidatedGraph_def buildGraph_def collidingKanji_nodes
      primitiveNodeMap_def createMnemonicEdges_def)
  apply (simp add: collidingKanji_def exampleKanji_def generateNodeId_def sanitize_def asc_def
      parseComponents_empty set_add_def)
  done

section \<open>Kanji rows\<close>

lemma trim_idem: "trim (trim s) = trim s"
proof -
  define u where "u = dropWhile isWhiteSpace s"
  define v where "v = dropWhile isWhiteSpace (rev u)"
  have v: "v = [] \<or> \<not> isWhiteSpace (hd v)"
    unfolding v_def by (metis hd_dropWhile)
  have u: "u = [] \<or> \<not> isWhiteSpace (hd u)"
    unfolding u_def by (metis hd_dropWhile)
  have t: "trim s = rev v" by (simp add: trim_def u_def v_def)
  have lead: "dropWhile isWhiteSpace (rev v) = rev v"
  proof (cases "v = []")
    case True
    then show ?thesis by simp
  next
    case False
    obtain w where w: "rev u = w @ v"
      unfolding v_def by (metis takeWhile_dropWhile_id)
    then have "u = rev v @ rev w" by (metis rev_append rev_rev_ident)
    moreover have "rev v \<noteq> []" using False by simp
    ultimately have "hd (rev v) = hd u" by (metis hd_append2)
    moreover have "u \<noteq> []" using w False by auto
    ultimately have "\<not> isWhiteSpace (hd (rev v))" using u by simp
    then show ?thesis by (simp add: dropWhile_eq_self_iff)
  qed
  have trail: "dropWhile isWhiteSpace v = v"
    using v by (simp add: dropWhile_eq_self_iff)
  have "trim (rev v) = rev v"
    unfolding trim_def by (simp add: lead trail)
  then show ?thesis by (simp add: t)
qed

lemma length_padFields: "8 \<le> length (padFields row)"
  by (simp add: padFields_def)

lemma padFields_short: "i < length row \<Longrightarrow> padFields row ! i = row ! i"
  by (simp add: padFields_def nth_append)

lemma padFields_missing: "length row \<le> i \<Longrightarrow> i < 8 \<Longrightarrow> padFields row ! i = []"
  by (simp add: padFields_def nth_append)

lemma parseKanjiRow_rejected:
  "rowRejected line \<Longrightarrow> \<exists>msg. parseKanjiRow line n = Inl (RTKParseError msg (Some n))"
  by (auto simp: rowRejected_def parseKanjiRow_def validateKanjiData_def Let_def trim_idem)

lemma parseKanjiRow_accepted:
  "\<not> rowRejected line \<Longrightarrow> parseKanjiRow line n = Inr (rowData line)"
  by (auto simp: rowRejected_def parseKanjiRow_def validateKanjiData_def Let_def trim_idem rowData_def)

lemma parseKanjiRows_accepted:
  "\<forall>l \<in> set ls. \<not> rowRejected l \<Longrightarrow> parseKanjiRows i ls = Inr (map rowData ls)"
  by (induction ls arbitrary: i) (simp_all add: parseKanjiRow_accepted)

lemma parseKanjiRows_rejected:
  "j < length ls \<Longrightarrow> rowRejected (ls ! j) \<Longrightarrow> \<forall>j' < j. \<not> rowRejected (ls ! j')
   \<Longrightarrow> \<exists>msg. parseKanjiRows i ls = Inl (RTKParseError msg (Some (i + j + 1)))"
proof (induction ls arbitrary: i j)
  case Nil
  then show ?case by simp
next
  case (Cons l ls)
  show ?case
  proof (cases j)
    case 0
    then show ?thesis
      using Cons.prems parseKanjiRow_rejected [of l "i + 1"] by auto
  next
    case (Suc j')
    have l: "parseKanjiRow l (i + 1) = Inr (rowData l)"
      using Cons.prems(3) Suc parseKanjiRow_accepted [of l] by auto
    have "\<exists>msg. parseKanjiRows (i + 1) ls = Inl (RTKParseError msg (Some (i + 1 + j' + 1)))"
      using Cons.prems Suc by (intro Cons.IH) auto
    then show ?thesis using l Suc by auto
  qed
qed

lemma shortRow_fields: "parseCSVLine shortRow = [[0x65E5], asc ''1'', asc ''2'', asc ''day'']"
  by (simp add: shortRow_def js_eval)

lemma shortRow_accepted: "\<not> rowRejected shortRow"
  by (simp add: rowRejected_def shortRow_fields) (simp add: js_eval)

lemma shortRow_data:
  "rowData shortRow =
     \<lparr> kanji = [0x65E5], id5th = Some 1, id6th = Some 2, keyword5th = asc ''day'',
       keyword6th = [], components = [], KanjiData.onReading = [], KanjiData.kunReading = [] \<rparr>"
  by (simp add: rowData_def shortRow_fields) (simp add: js_eval)

lemma noKeywordRow_rejected: "rowRejected noKeywordRow"
  by (simp add: noKeywordRow_def js_eval)

lemma noCharacterRow_rejected: "rowRejected noCharacterRow"
  by (simp add: noCharacterRow_def js_eval)

lemma noCharacterRow_error:
  "parseKanjiRow noCharacterRow 7 =
     Inl (RTKParseError (asc ''Missing kanji character at line 7'') (Some 7))"
  by (simp add: noCharacterRow_def js_eval)

lemma two_rows_lines:
  "filter (\<lambda>line. length line > 0) (map trim (split_on 0xA (shortRow @ [0xA, 0xA] @ noKeywordRow)))
     = [shortRow, noKeywordRow]"
  by (simp add: shortRow_def noKeywordRow_def js_eval)

lemma two_rows_error:
  "parseKanjiCSV asciiToLowerCase (shortRow @ [0xA, 0xA] @ noKeywordRow) =
     Inl (RTKParseError (asc ''Missing keywords at line 2'') (Some 2))"
  by (simp add: shortRow_def noKeywordRow_def js_eval)

section \<open>Mnemonic edges\<close>

lemma usesPairs_append: "usesPairs (es @ fs) = usesPairs es @ usesPairs fs"
  by (simp add: usesPairs_def)

lemma usesPairs_mirrored: "usesPairs (concat (map mirroredPair ps)) = ps"
  by (induction ps) (simp_all add: usesPairs_def mirroredPair_def)

lemma keywordLoop_edges:
  "keywordLoop kn pn kid kws (es, ms, ct) = Inr (es', ms', ct')
   \<Longrightarrow> \<exists>ts. es' = es @ concat (map (\<lambda>t. mirroredPair (kid, t)) ts)
          \<and> ct' = ct @ ts \<and> (distinct ct \<longrightarrow> distinct ct')"
proof (induction kws arbitrary: es ms ct)
  case Nil
  then show ?case by simp
next
  case (Cons kw kws)
  show ?case
  proof (cases "resolveReference kn pn kw")
    case (Inl err)
    with Cons.prems show ?thesis by simp
  next
    case (Inr r)
    show ?thesis
    proof (cases r)
      case None
      with Inr Cons.prems Cons.IH [of es "set_add ms kw" ct] show ?thesis by simp
    next
      case (Some n)
      show ?thesis
      proof (cases "node_id n \<in> set ct")
        case True
        with Some Inr Cons.prems Cons.IH [of es ms ct] show ?thesis by simp
      next
        case False
        let ?es = "es @ mirroredPair (kid, node_id n)"
        have "keywordLoop kn pn kid kws (?es, ms, ct @ [node_id n]) = Inr (es', ms', ct')"
          using False Some Inr Cons.prems by (simp add: mirroredPair_def set_add_def)
        from Cons.IH [OF this] obtain ts where
          ts: "es' = ?es @ concat (map (\<lambda>t. mirroredPair (kid, t)) ts)"
            "ct' = (ct @ [node_id n]) @ ts" "distinct (ct @ [node_id n]) \<longrightarrow> distinct ct'"
          by blast
        show ?thesis
          by (rule exI [of _ "node_id n # ts"]) (use ts False in simp)
      qed
    qed
  qed
qed

lemma kanjiLoop_edges:
  "kanjiLoop kn pn ks (es, ms) = Inr (es', ms')
   \<Longrightarrow> \<exists>tss. length tss = length ks \<and> (\<forall>ts \<in> set tss. distinct ts)
          \<and> es' = es @ concat (map mirroredPair (rowPairs ks tss))"
proof (induction ks arbitrary: es ms)
  case Nil
  then show ?case by (simp add: rowPairs_def)
next
  case (Cons k ks)
  let ?kid = "generateNodeId (asc ''kanji'') (kanji k)"
  show ?case
  proof (cases "map_of kn ?kid")
    case None
    with Cons.prems have "kanjiLoop kn pn ks (es, ms) = Inr (es', ms')" by (simp add: Let_def)
    from Cons.IH [OF this] obtain tss where
      "length tss = length ks" "\<forall>ts \<in> set tss. distinct ts"
      "es' = es @ concat (map mirroredPair (rowPairs ks tss))" by blast
    then show ?thesis
      by (intro exI [of _ "[] # tss"]) (simp add: rowPairs_def)
  next
    case (Some kanjiNode)
    with Cons.prems obtain es1 ms1 ct1 where
      kl: "keywordLoop kn pn ?kid (parseComponents (components k)) (es, ms, []) = Inr (es1, ms1, ct1)"
      and rest: "kanjiLoop kn pn ks (es1, ms1) = Inr (es', ms')"
      by (auto simp: Let_def split: sum.splits)
    from keywordLoop_edges [OF kl] obtain ts where
      ts: "es1 = es @ concat (map (\<lambda>t. mirroredPair (?kid, t)) ts)" "ct1 = ts" "distinct ts"
      by auto
    from Cons.IH [OF rest] obtain tss where
      tss: "length tss = length ks" "\<forall>ts \<in> set tss. distinct ts"
      "es' = es1 @ concat (map mirroredPair (rowPairs ks tss))" by blast
    show ?thesis
      by (intro exI [of _ "ts # tss"]) (use ts tss in \<open>simp add: rowPairs_def comp_def\<close>)
  qed
qed

lemma rowPairs_sources: "p \<in> set (rowPairs ks tss) \<Longrightarrow> fst p \<in> (\<lambda>k. generateNodeId (asc ''kanji'') (kanji k)) ` set ks"
  by (induction ks arbitrary: tss) (auto simp: rowPairs_def elim!: in_set_zipE split: list.splits)

lemma distinct_rowPairs:
  "distinct (map (\<lambda>k. generateNodeId (asc ''kanji'') (kanji k)) ks) \<Longrightarrow> length tss = length ks
   \<Longrightarrow> \<forall>ts \<in> set tss. distinct ts \<Longrightarrow> distinct (rowPairs ks tss)"
proof (induction ks arbitrary: tss)
  case Nil
  then show ?case by (simp add: rowPairs_def)
next
  case (Cons k ks)
  then obtain ts tss' where tss: "tss = ts # tss'" by (cases tss) auto
  have split: "rowPairs (k # ks) tss = map (Pair (generateNodeId (asc ''kanji'') (kanji k))) ts @ rowPairs ks tss'"
    by (simp add: rowPairs_def tss)
  have 1: "distinct (map (Pair (generateNodeId (asc ''kanji'') (kanji k))) ts)"
    using Cons.prems(3) tss by (simp add: distinct_map inj_on_def)
  have 2: "distinct (rowPairs ks tss')"
    using Cons.IH [of tss'] Cons.prems tss by simp
  have 3: "set (map (Pair (generateNodeId (asc ''kanji'') (kanji k))) ts) \<inter> set (rowPairs ks tss') = {}"
    using Cons.prems(1) rowPairs_sources [of _ ks tss'] by fastforce
  show ?case unfolding split using 1 2 3 by simp
qed

lemma mirrored_membership:
  assumes "es = concat (map mirroredPair ps)"
  shows "\<lparr> source = a, target = b, edge_type = mnemonic_uses \<rparr> \<in> set es \<longleftrightarrow> (a, b) \<in> set ps"
    and "\<lparr> source = b, target = a, edge_type = used_in_mnemonic \<rparr> \<in> set es \<longleftrightarrow> (a, b) \<in> set ps"
  unfolding assms by (induction ps) (auto simp: mirroredPair_def)

lemma repeatedTokenRows_build:
  "buildGraph 0 (Some repeatedTokenRows) (Some []) None =
     Inr (\<lparr> nodes = map (\<lambda>k. createKanjiNode k None) repeatedTokenRows,
            edges = mirroredPair (asc ''kanji_'' @ [0x660E], asc ''kanji_'' @ [0x65E5]),
            metadata = \<lparr> totalKanji = 2, totalPrimitives = 0, totalEdges = 2,
                         buildTimestamp = 0 \<rparr> \<rparr>, [])"
  by (simp add: repeatedTokenRows_def js_eval)

lemma duplicatedRows_build:
  "buildGraph 0 (Some duplicatedRows) (Some []) None =
     Inr (\<lparr> nodes = map (\<lambda>k. createKanjiNode k None) (tl duplicatedRows),
            edges = mirroredPair (asc ''kanji_'' @ [0x660E], asc ''kanji_'' @ [0x65E5])
                  @ mirroredPair (asc ''kanji_'' @ [0x660E], asc ''kanji_'' @ [0x65E5]),
            metadata = \<lparr> totalKanji = 2, totalPrimitives = 0, totalEdges = 4,
                         buildTimestamp = 0 \<rparr> \<rparr>, [])"
  by (simp add: duplicatedRows_def js_eval)

section \<open>What the edge loops compute\<close>

lemma resolveReference_returns:
  "kw \<notin> set objectPrototypeKeys \<Longrightarrow> \<exists>r. resolveReference kn pn kw = Inr r"
  by (simp add: resolveReference_def resolveComponentKeyword_def
      split: option.splits PropertyValue.splits)

lemma keywordLoop_returns:
  "\<forall>t \<in> set kws. \<exists>r. resolveReference kn pn t = Inr r
   \<Longrightarrow> \<exists>st'. keywordLoop kn pn kid kws (es, ms, ct) = Inr st'"
proof (induction kws arbitrary: es ms ct)
  case Nil
  then show ?case by simp
next
  case (Cons kw kws)
  then obtain r where r: "resolveReference kn pn kw = Inr r" by auto
  have rest: "\<exists>st'. keywordLoop kn pn kid kws (es', ms', ct') = Inr st'" for es' ms' ct'
    using Cons.IH Cons.prems by simp
  show ?case
    using r rest by (cases r) simp_all
qed

lemma keywordLoop_result:
  "keywordLoop kn pn kid kws (es, ms, ct) = Inr (es', ms', ct')
   \<Longrightarrow> set ms' = set ms \<union> {t \<in> set kws. resolveReference kn pn t = Inr None}
     \<and> set ct' = set ct \<union> {node_id n |t n. t \<in> set kws \<and> resolveReference kn pn t = Inr (Some n)}"
proof (induction kws arbitrary: es ms ct)
  case Nil
  then show ?case by simp
next
  case (Cons kw kws)
  show ?case
  proof (cases "resolveReference kn pn kw")
    case (Inl err)
    with Cons.prems show ?thesis by simp
  next
    case (Inr r)
    show ?thesis
    proof (cases r)
      case None
      with Inr Cons.prems have "keywordLoop kn pn kid kws (es, set_add ms kw, ct) = Inr (es', ms', ct')"
        by simp
      from Cons.IH [OF this] show ?thesis
        using Inr None by (auto simp: set_add_def)
    next
      case (Some n)
      show ?thesis
      proof (cases "node_id n \<in> set ct")
        case True
        with Some Inr Cons.prems have "keywordLoop kn pn kid kws (es, ms, ct) = Inr (es', ms', ct')"
          by simp
        from Cons.IH [OF this] show ?thesis
          using Inr Some True by auto
      next
        case False
        with Some Inr Cons.prems obtain es1 where
          "keywordLoop kn pn kid kws (es1, ms, set_add ct (node_id n)) = Inr (es', ms', ct')"
          by simp
        from Cons.IH [OF this] show ?thesis
          using Inr Some False by (auto simp: set_add_def)
      qed
    qed
  qed
qed

lemma usesPairs_row: "usesPairs (concat (map (\<lambda>t. mirroredPair (kid, t)) ts)) = map (Pair kid) ts"
  using usesPairs_mirrored [of "map (Pair kid) ts"] by (simp add: comp_def)

lemma kanjiLoop_returns:
  "\<forall>t \<in> set (mnemonicTokens ks). \<exists>r. resolveReference kn pn t = Inr r
   \<Longrightarrow> \<exists>st'. kanjiLoop kn pn ks (es, ms) = Inr st'"
proof (induction ks arbitrary: es ms)
  case Nil
  then show ?case by simp
next
  case (Cons k ks)
  have rest: "\<exists>st'. kanjiLoop kn pn ks (es', ms') = Inr st'" for es' ms'
    using Cons.IH Cons.prems by (simp add: mnemonicTokens_def)
  have "\<forall>t \<in> set (parseComponents (components k)). \<exists>r. resolveReference kn pn t = Inr r"
    using Cons.prems by (simp add: mnemonicTokens_def)
  from keywordLoop_returns [OF this] obtain es1 ms1 ct1 where
    "keywordLoop kn pn (generateNodeId (asc ''kanji'') (kanji k))
       (parseComponents (components k)) (es, ms, []) = Inr (es1, ms1, ct1)"
    by (metis prod_cases3)
  then show ?case
    using rest by (simp add: Let_def split: option.splits)
qed

lemma kanjiLoop_result:
  "kanjiLoop kn pn ks (es, ms) = Inr (es', ms')
   \<Longrightarrow> \<forall>k \<in> set ks. map_of kn (generateNodeId (asc ''kanji'') (kanji k)) \<noteq> None
   \<Longrightarrow> set ms' = set ms \<union> {t \<in> set (mnemonicTokens ks). resolveReference kn pn t = Inr None}
     \<and> set (usesPairs es') = set (usesPairs es)
         \<union> {(generateNodeId (asc ''kanji'') (kanji k), node_id n) |k t n.
              k \<in> set ks \<and> t \<in> set (parseComponents (components k))
              \<and> resolveReference kn pn t = Inr (Some n)}"
proof (induction ks arbitrary: es ms)
  case Nil
  then show ?case by (simp add: mnemonicTokens_def)
next
  case (Cons k ks)
  let ?kid = "generateNodeId (asc ''kanji'') (kanji k)"
  from Cons.prems obtain es1 ms1 ct1 where
    kl: "keywordLoop kn pn ?kid (parseComponents (components k)) (es, ms, []) = Inr (es1, ms1, ct1)"
    and rest: "kanjiLoop kn pn ks (es1, ms1) = Inr (es', ms')"
    by (auto simp: Let_def split: sum.splits option.splits)
  from keywordLoop_edges [OF kl] obtain ts where
    ts: "es1 = es @ concat (map (\<lambda>t. mirroredPair (?kid, t)) ts)" "ct1 = ts"
    by auto
  have up1: "usesPairs es1 = usesPairs es @ map (Pair ?kid) ts"
    by (simp add: ts usesPairs_append usesPairs_row)
  from keywordLoop_result [OF kl] have
    ms1: "set ms1 = set ms \<union> {t \<in> set (parseComponents (components k)). resolveReference kn pn t = Inr None}"
    and ct1: "set ts = {node_id n |t n. t \<in> set (parseComponents (components k))
                          \<and> resolveReference kn pn t = Inr (Some n)}"
    using ts(2) by auto
  from Cons.IH [OF rest] Cons.prems(2) have
    ih1: "set ms' = set ms1 \<union> {t \<in> set (mnemonicTokens ks). resolveReference kn pn t = Inr None}"
    and ih2: "set (usesPairs es') = set (usesPairs es1)
         \<union> {(generateNodeId (asc ''kanji'') (kanji k), node_id n) |k t n.
              k \<in> set ks \<and> t \<in> set (parseComponents (components k))
              \<and> resolveReference kn pn t = Inr (Some n)}"
    by auto
  have a: "set ms' = set ms \<union> {t \<in> set (mnemonicTokens (k # ks)). resolveReference kn pn t = Inr None}"
    unfolding ih1 ms1 by (auto simp: mnemonicTokens_def)
  have "set (map (Pair ?kid) ts) = {(?kid, node_id n) |t n. t \<in> set (parseComponents (components k))
                          \<and> resolveReference kn pn t = Inr (Some n)}"
    using ct1 by auto
  then have b: "set (usesPairs es') = set (usesPairs es)
         \<union> {(generateNodeId (asc ''kanji'') (kanji k'), node_id n) |k' t n.
              k' \<in> set (k # ks) \<and> t \<in> set (parseComponents (components k'))
              \<and> resolveReference kn pn t = Inr (Some n)}"
    unfolding ih2 up1 by auto
  show ?case using a b by simp
qed

lemma map_of_fold_update_mono:
  "map_of m k \<noteq> None \<Longrightarrow> map_of (foldl (\<lambda>m x. AList.update (f x) (h x) m) m xs) k \<noteq> None"
  by (induction xs arbitrary: m) (simp_all add: update_conv')

lemma map_of_fold_update_key:
  "x \<in> set xs \<Longrightarrow> map_of (foldl (\<lambda>m x. AList.update (f x) (h x) m) m xs) (f x) \<noteq> None"
proof (induction xs arbitrary: m)
  case Nil
  then show ?case by simp
next
  case (Cons y ys)
  show ?case
  proof (cases "x = y")
    case True
    then show ?thesis
      using map_of_fold_update_mono [of "AList.update (f y) (h y) m" "f y" f h ys]
      by (simp add: update_conv')
  next
    case False
    then show ?thesis using Cons by simp
  qed
qed

lemma kanjiNodeMap_has_row:
  "k \<in> set kd \<Longrightarrow> map_of (kanjiNodeMap kd jm) (generateNodeId (asc ''kanji'') (kanji k)) \<noteq> None"
  using map_of_fold_update_key [of k kd "\<lambda>k. node_id (createKanjiNode k jm)"
      "\<lambda>k. createKanjiNode k jm" "[]"]
  by (simp add: kanjiNodeMap_def Let_def createKanjiNode_def)

lemma missingFooRows_edges:
  "createMnemonicEdges (kanjiNodeMap missingFooRows None) (primitiveNodeMap []) missingFooRows
     = Inr ([], [asc ''foo''])"
  by (simp add: missingFooRows_def js_eval)

lemma missingBarRows_edges:
  "createMnemonicEdges (kanjiNodeMap missingBarRows None) (primitiveNodeMap []) missingBarRows
     = Inr ([], [asc ''bar''])"
  by (simp add: missingBarRows_def js_eval)

lemma inheritedNameRows_build:
  "mnemonicTokens inheritedNameRows = [asc ''constructor'']
   \<and> map node_id (map snd (kanjiNodeMap inheritedNameRows None)) = [asc ''kanji_'' @ [0x660E]]
   \<and> buildGraph 0 (Some inheritedNameRows) (Some []) None
       = Inl (RTKDataError ReplaceNotAFunction 1 0)"
  by (simp add: inheritedNameRows_def js_eval)

lemma missingFooRows_tokens: "mnemonicTokens missingFooRows = [asc ''foo'']"
  by (simp add: missingFooRows_def js_eval)
section \<open>The override map\<close>

lemma elbow_mapping: "map_of KEYWORD_TO_CHARACTER_MAPPINGS (asc ''elbow'') = Some [0x53B6]"
  by (simp add: KEYWORD_TO_CHARACTER_MAPPINGS_def asc_def)

lemma elbowRows_nodes:
  "parseComponents (components (hd elbowRows)) = [asc ''elbow'']"
  "map (\<lambda>n. (node_id n, node_type n, character n, keyword n))
     (map (\<lambda>k. createKanjiNode k None) elbowRows)
     = [(asc ''kanji_'' @ [0x79C1], Kanji, [0x79C1], asc ''private''),
        (asc ''kanji_'' @ [0x8098], Kanji, [0x8098], asc ''elbow'')]"
  by (simp_all add: elbowRows_def js_eval)

lemma elbow_primitive_nodes:
  "(\<lambda>n. (node_id n, node_type n, character n, keyword n)) (createPrimitiveNode myselfFilePrimitive)
     = (asc ''primitive_p229_2_myself'', Primitive, [0x53B6], asc ''myself'')"
  "(\<lambda>n. (node_id n, node_type n, character n, keyword n)) (createPrimitiveNode elbowFilePrimitive)
     = (asc ''primitive_p229_2_elbow'', Primitive, [0x53B6], asc ''elbow'')"
  "(\<lambda>n. (node_id n, node_type n, character n, keyword n)) (createPrimitiveNode characterFilePrimitive)
     = (asc ''primitive_'' @ [0x53B6], Primitive, [0x53B6], [0x53B6])"
  by (simp_all add: myselfFilePrimitive_def elbowFilePrimitive_def characterFilePrimitive_def js_eval)

lemma myselfFile_build:
  "buildGraph 0 (Some elbowRows) (Some [myselfFilePrimitive]) None =
     Inr (\<lparr> nodes = map (\<lambda>k. createKanjiNode k None) elbowRows
                    @ [createPrimitiveNode myselfFilePrimitive],
            edges = [],
            metadata = \<lparr> totalKanji = 2, totalPrimitives = 1, totalEdges = 0,
                         buildTimestamp = 0 \<rparr> \<rparr>,
          [asc ''Missing mnemonic references found: elbow''])"
  by (simp add: elbowRows_def myselfFilePrimitive_def js_eval)

lemma elbowFile_build:
  "buildGraph 0 (Some elbowRows) (Some [elbowFilePrimitive]) None =
     Inr (\<lparr> nodes = map (\<lambda>k. createKanjiNode k None) elbowRows
                    @ [createPrimitiveNode elbowFilePrimitive],
            edges = mirroredPair (asc ''kanji_'' @ [0x79C1], asc ''primitive_p229_2_elbow''),
            metadata = \<lparr> totalKanji = 2, totalPrimitives = 1, totalEdges = 2,
                         buildTimestamp = 0 \<rparr> \<rparr>, [])"
  by (simp add: elbowRows_def elbowFilePrimitive_def js_eval)

lemma characterFile_build:
  "buildGraph 0 (Some elbowRows) (Some [characterFilePrimitive]) None =
     Inr (\<lparr> nodes = map (\<lambda>k. createKanjiNode k None) elbowRows
                    @ [createPrimitiveNode characterFilePrimitive],
            edges = mirroredPair (asc ''kanji_'' @ [0x79C1], asc ''primitive_'' @ [0x53B6]),
            metadata = \<lparr> totalKanji = 2, totalPrimitives = 1, totalEdges = 2,
                         buildTimestamp = 0 \<rparr> \<rparr>, [])"
  by (simp add: elbowRows_def characterFilePrimitive_def js_eval)

section \<open>The component tree: frame and cycles\<close>

lemma build_frame:
  fixes graph :: "'a RTKGraph_scheme"
  shows "buildTreeNode lc graph maxDepth nodeId d parentId st = (r, st')
   \<Longrightarrow> visitedNodes st' = visitedNodes st
     \<and> (\<exists>new. allTreeNodes st' = allTreeNodes st @ new
            \<and> (\<forall>n \<in> set new. d \<le> depth n \<and> \<not> exceeds (depth n) maxDepth)
            \<and> (case r of None \<Rightarrow> new = []
                | Some t \<Rightarrow> (\<exists>more. new = t # more) \<and> tree_id t = nodeId \<and> depth t = d
                            \<and> map_of (nodeMap graph) nodeId = Some (data t)))
     \<and> (\<exists>c. circularReferences st' = circularReferences st @ c)"
  and "buildChildren lc graph maxDepth es d pid st = (cs, st')
   \<Longrightarrow> visitedNodes st' = visitedNodes st
     \<and> (\<exists>new. allTreeNodes st' = allTreeNodes st @ new
            \<and> (\<forall>n \<in> set new. d \<le> depth n \<and> \<not> exceeds (depth n) maxDepth))
     \<and> (\<exists>c. circularReferences st' = circularReferences st @ c)"
proof (induction lc graph maxDepth nodeId d parentId st and lc graph maxDepth es d pid st
    arbitrary: r st' and cs st' rule: buildTreeNode_buildChildren.induct)
  case (1 lc graph maxDepth nodeId d parentId st)
  show ?case
  proof (cases "exceeds d maxDepth \<or> nodeId \<in> set (visitedNodes st) \<or> map_of (nodeMap graph) nodeId = None")
    case True
    then show ?thesis
      using "1.prems" by (auto simp: buildTreeNode.simps split: if_splits)
  next
    case False
    then obtain graphNode where gn: "map_of (nodeMap graph) nodeId = Some graphNode"
      and le: "\<not> exceeds d maxDepth" and fresh: "nodeId \<notin> set (visitedNodes st)"
      by auto
    let ?t0 = "TreeNode nodeId graphNode d (d < 2) False parentId [] None None"
    let ?st1 = "st\<lparr> visitedNodes := set_add (visitedNodes st) nodeId,
                      allTreeNodes := allTreeNodes st @ [?t0] \<rparr>"
    let ?es = "case map_of (edgeMap graph) nodeId of Some es \<Rightarrow> es | None \<Rightarrow> []"
    obtain cs st2 where ch: "buildChildren lc graph maxDepth ?es (d + 1) nodeId ?st1 = (cs, st2)"
      by (cases "buildChildren lc graph maxDepth ?es (d + 1) nodeId ?st1") auto
    let ?t = "TreeNode nodeId graphNode d (d < 2) False parentId (sortNodesByJLPTLevel lc cs) None None"
    have res: "r = Some ?t"
      "st' = st2\<lparr> visitedNodes := removeAll nodeId (visitedNodes st2),
                  allTreeNodes := (allTreeNodes st2)[length (allTreeNodes st) := ?t] \<rparr>"
      using "1.prems" gn le fresh ch by (simp_all add: buildTreeNode.simps Let_def)
    from "1.IH" [OF le fresh gn ch] obtain new c where
      vis: "visitedNodes st2 = visitedNodes ?st1"
      and all: "allTreeNodes st2 = allTreeNodes ?st1 @ new"
      and dep: "\<forall>n \<in> set new. d + 1 \<le> depth n \<and> \<not> exceeds (depth n) maxDepth"
      and circ: "circularReferences st2 = circularReferences ?st1 @ c"
      by blast
    have v: "visitedNodes st' = visitedNodes st"
      using res(2) vis fresh by (simp add: set_add_def)
    have a: "allTreeNodes st' = allTreeNodes st @ (?t # new)"
      using res(2) all by (simp add: list_update_append)
    have d': "\<forall>n \<in> set (?t # new). d \<le> depth n \<and> \<not> exceeds (depth n) maxDepth"
      using dep le by auto
    have c': "circularReferences st' = circularReferences st @ c"
      using res(2) circ by simp
    show ?thesis
      using v a d' c' res(1) gn by auto
  qed
next
  case (2 lc graph maxDepth d parentId st)
  then show ?case by simp
next
  case (3 lc graph maxDepth edge rest d parentId st)
  show ?case
  proof (cases "edge_type edge = mnemonic_uses")
    case False
    then have "buildChildren lc graph maxDepth rest d parentId st = (cs, st')"
      using "3.prems" by simp
    from "3.IH"(4) [OF False this] show ?thesis .
  next
    case True
    obtain r1 st1 where b: "buildTreeNode lc graph maxDepth (target edge) d (Some parentId) st = (r1, st1)"
      by (cases "buildTreeNode lc graph maxDepth (target edge) d (Some parentId) st") auto
    from "3.IH"(1) [OF True b] obtain new1 c1 where
      v1: "visitedNodes st1 = visitedNodes st"
      and a1: "allTreeNodes st1 = allTreeNodes st @ new1"
      and d1: "\<forall>n \<in> set new1. d \<le> depth n \<and> \<not> exceeds (depth n) maxDepth"
      and c1: "circularReferences st1 = circularReferences st @ c1"
      by blast
    obtain cs2 where rest: "buildChildren lc graph maxDepth rest d parentId st1 = (cs2, st')"
      using "3.prems" True b by (cases r1) (auto split: prod.splits)
    have "visitedNodes st' = visitedNodes st1
     \<and> (\<exists>new. allTreeNodes st' = allTreeNodes st1 @ new
            \<and> (\<forall>n \<in> set new. d \<le> depth n \<and> \<not> exceeds (depth n) maxDepth))
     \<and> (\<exists>c. circularReferences st' = circularReferences st1 @ c)"
    proof (cases r1)
      case None
      from "3.IH"(2) [OF True b [symmetric] None rest] show ?thesis .
    next
      case (Some t)
      from "3.IH"(3) [OF True b [symmetric] Some rest] show ?thesis .
    qed
    then obtain new2 c2 where
      v2: "visitedNodes st' = visitedNodes st1"
      and a2: "allTreeNodes st' = allTreeNodes st1 @ new2"
      and d2: "\<forall>n \<in> set new2. d \<le> depth n \<and> \<not> exceeds (depth n) maxDepth"
      and c2: "circularReferences st' = circularReferences st1 @ c2"
      by blast
    have "allTreeNodes st' = allTreeNodes st @ (new1 @ new2)" using a1 a2 by simp
    moreover have "\<forall>n \<in> set (new1 @ new2). d \<le> depth n \<and> \<not> exceeds (depth n) maxDepth"
      using d1 d2 by auto
    moreover have "circularReferences st' = circularReferences st @ (c1 @ c2)"
      using c1 c2 by simp
    ultimately show ?thesis using v1 v2 by metis
  qed
qed

lemma edgeMap_fold_sound:
  assumes "\<forall>k es. map_of m k = Some es \<longrightarrow> (\<forall>e \<in> set es. e \<in> S \<and> source e = k)"
    and "set xs \<subseteq> S"
    and "map_of (foldl (\<lambda>m edge. AList.update (source edge)
            ((case map_of m (source edge) of Some es \<Rightarrow> es | None \<Rightarrow> []) @ [edge]) m) m xs) k = Some es"
  shows "\<forall>e \<in> set es. e \<in> S \<and> source e = k"
  using assms
proof (induction xs arbitrary: m)
  case Nil
  then show ?case by simp
next
  case (Cons x xs)
  let ?m = "AList.update (source x)
      ((case map_of m (source x) of Some es \<Rightarrow> es | None \<Rightarrow> []) @ [x]) m"
  have inv: "\<forall>k es. map_of ?m k = Some es \<longrightarrow> (\<forall>e \<in> set es. e \<in> S \<and> source e = k)"
  proof (intro allI impI ballI)
    fix k es e
    assume m: "map_of ?m k = Some es" and e: "e \<in> set es"
    have xS: "x \<in> S" using Cons.prems(2) by simp
    show "e \<in> S \<and> source e = k"
    proof (cases "k = source x")
      case False
      then have "map_of m k = Some es" using m by (simp add: update_conv')
      then show ?thesis using Cons.prems(1) e by blast
    next
      case True
      have m': "(case map_of m (source x) of Some es \<Rightarrow> es | None \<Rightarrow> []) @ [x] = es"
        using m unfolding True by (simp add: update_conv')
      show ?thesis
      proof (cases "map_of m (source x)")
        case None
        then have "es = [x]" using m' by simp
        then have "e = x" using e by simp
        then show ?thesis unfolding True using xS by simp
      next
        case (Some old)
        then have es: "es = old @ [x]" using m' by simp
        have old: "\<forall>e \<in> set old. e \<in> S \<and> source e = source x"
          using Cons.prems(1) Some by blast
        have "e \<in> set old \<or> e = x" using e unfolding es by auto
        then show ?thesis unfolding True using old xS by blast
      qed
    qed
  qed
  have sub: "set xs \<subseteq> S" using Cons.prems(2) by simp
  have run: "map_of (foldl (\<lambda>m edge. AList.update (source edge)
            ((case map_of m (source edge) of Some es \<Rightarrow> es | None \<Rightarrow> []) @ [edge]) m) ?m xs) k
      = Some es"
    using Cons.prems(3) by simp
  show ?case by (rule Cons.IH [OF inv sub run])
qed

lemma edgeMap_sound:
  "map_of (edgeMap graph) k = Some es \<Longrightarrow> \<forall>e \<in> set es. e \<in> set (edges graph) \<and> source e = k"
  unfolding edgeMap_def
  by (rule edgeMap_fold_sound [where m = "[]" and xs = "edges graph"]) simp_all

lemma uses_edge_pair:
  "e \<in> set es \<Longrightarrow> edge_type e = mnemonic_uses \<Longrightarrow> (source e, target e) \<in> set (usesPairs es)"
  by (force simp: usesPairs_def)

lemma build_cycles:
  fixes graph :: "'a RTKGraph_scheme"
  shows "buildTreeNode lc graph maxDepth nodeId d parentId st = (r, st')
   \<Longrightarrow> \<forall>v \<in> set (visitedNodes st). (v, nodeId) \<in> (set (usesPairs (edges graph)))\<^sup>+
   \<Longrightarrow> \<forall>x \<in> set (circularReferences st). (x, x) \<in> (set (usesPairs (edges graph)))\<^sup>+
   \<Longrightarrow> \<forall>x \<in> set (circularReferences st'). (x, x) \<in> (set (usesPairs (edges graph)))\<^sup>+"
  and "buildChildren lc graph maxDepth es d pid st = (cs, st')
   \<Longrightarrow> \<forall>v \<in> set (visitedNodes st). (v, pid) \<in> (set (usesPairs (edges graph)))\<^sup>*
   \<Longrightarrow> \<forall>e \<in> set es. edge_type e = mnemonic_uses \<longrightarrow> (pid, target e) \<in> set (usesPairs (edges graph))
   \<Longrightarrow> \<forall>x \<in> set (circularReferences st). (x, x) \<in> (set (usesPairs (edges graph)))\<^sup>+
   \<Longrightarrow> \<forall>x \<in> set (circularReferences st'). (x, x) \<in> (set (usesPairs (edges graph)))\<^sup>+"
proof (induction lc graph maxDepth nodeId d parentId st and lc graph maxDepth es d pid st
    arbitrary: r st' and cs st' rule: buildTreeNode_buildChildren.induct)
  case (1 lc graph maxDepth nodeId d parentId st)
  let ?R = "set (usesPairs (edges graph))"
  show ?case
  proof (cases "exceeds d maxDepth \<or> nodeId \<in> set (visitedNodes st) \<or> map_of (nodeMap graph) nodeId = None")
    case True
    then show ?thesis
      using "1.prems" by (auto simp: buildTreeNode.simps split: if_splits)
  next
    case False
    then obtain graphNode where gn: "map_of (nodeMap graph) nodeId = Some graphNode"
      and le: "\<not> exceeds d maxDepth" and fresh: "nodeId \<notin> set (visitedNodes st)"
      by auto
    let ?t0 = "TreeNode nodeId graphNode d (d < 2) False parentId [] None None"
    let ?st1 = "st\<lparr> visitedNodes := set_add (visitedNodes st) nodeId,
                      allTreeNodes := allTreeNodes st @ [?t0] \<rparr>"
    let ?es = "case map_of (edgeMap graph) nodeId of Some es \<Rightarrow> es | None \<Rightarrow> []"
    obtain cs st2 where ch: "buildChildren lc graph maxDepth ?es (d + 1) nodeId ?st1 = (cs, st2)"
      by (cases "buildChildren lc graph maxDepth ?es (d + 1) nodeId ?st1") auto
    have res: "circularReferences st' = circularReferences st2"
      using "1.prems"(1) gn le fresh ch by (auto simp: buildTreeNode.simps Let_def)
    have path: "\<forall>v \<in> set (visitedNodes ?st1). (v, nodeId) \<in> ?R\<^sup>*"
      using "1.prems"(2) by (auto simp: set_add_def)
    have out: "\<forall>e \<in> set ?es. edge_type e = mnemonic_uses \<longrightarrow> (nodeId, target e) \<in> ?R"
    proof (cases "map_of (edgeMap graph) nodeId")
      case None
      then show ?thesis by simp
    next
      case (Some es)
      then show ?thesis
        using edgeMap_sound [OF Some] uses_edge_pair [of _ "edges graph"] by fastforce
    qed
    have old: "\<forall>x \<in> set (circularReferences ?st1). (x, x) \<in> ?R\<^sup>+"
      using "1.prems"(3) by simp
    from "1.IH" [OF le fresh gn ch path out old] res show ?thesis by simp
  qed
next
  case (2 lc graph maxDepth d pid st)
  then show ?case by simp
next
  case (3 lc graph maxDepth edge rest d pid st)
  let ?R = "set (usesPairs (edges graph))"
  have rest_out: "\<forall>e \<in> set rest. edge_type e = mnemonic_uses \<longrightarrow> (pid, target e) \<in> ?R"
    using "3.prems"(3) by simp
  show ?case
  proof (cases "edge_type edge = mnemonic_uses")
    case False
    then have "buildChildren lc graph maxDepth rest d pid st = (cs, st')"
      using "3.prems"(1) by simp
    from "3.IH"(4) [OF False this "3.prems"(2) rest_out "3.prems"(4)] show ?thesis .
  next
    case True
    obtain r1 st1 where b: "buildTreeNode lc graph maxDepth (target edge) d (Some pid) st = (r1, st1)"
      by (cases "buildTreeNode lc graph maxDepth (target edge) d (Some pid) st") auto
    have step: "(pid, target edge) \<in> ?R" using "3.prems"(3) True by simp
    have path: "\<forall>v \<in> set (visitedNodes st). (v, target edge) \<in> ?R\<^sup>+"
      using "3.prems"(2) step by (auto intro: rtrancl_into_trancl1)
    from "3.IH"(1) [OF True b path "3.prems"(4)]
    have c1: "\<forall>x \<in> set (circularReferences st1). (x, x) \<in> ?R\<^sup>+" .
    have v1: "visitedNodes st1 = visitedNodes st"
      using build_frame(1) [OF b] by simp
    then have path1: "\<forall>v \<in> set (visitedNodes st1). (v, pid) \<in> ?R\<^sup>*"
      using "3.prems"(2) by simp
    obtain cs2 where rest: "buildChildren lc graph maxDepth rest d pid st1 = (cs2, st')"
      using "3.prems"(1) True b by (cases r1) (auto split: prod.splits)
    show ?thesis
    proof (cases r1)
      case None
      from "3.IH"(2) [OF True b [symmetric] None rest path1 rest_out c1] show ?thesis .
    next
      case (Some t)
      from "3.IH"(3) [OF True b [symmetric] Some rest path1 rest_out c1] show ?thesis .
    qed
  qed
qed

lemma selfLoop_nodeMap: "nodeMap selfLoopGraph = [(asc ''kanji_A'', exampleNode Kanji ''kanji_A'' ''a'' None)]"
  by (simp add: nodeMap_def selfLoopGraph_def exampleNode_def)

lemma selfLoop_edgeMap: "edgeMap selfLoopGraph = [(asc ''kanji_A'', usesEdge ''kanji_A'' ''kanji_A'')]"
  by (simp add: edgeMap_def selfLoopGraph_def usesEdge_def)

lemma selfLoop_limit0:
  "treeSummary (buildKanjiComponentTree codeUnitCompare selfLoopGraph (asc ''kanji_A'') (Limit 0))
     = Inr ([(asc ''kanji_A'', 0)], [])"
  by (simp add: treeSummary_def buildKanjiComponentTree_def selfLoop_nodeMap selfLoop_edgeMap
      buildTreeNode.simps usesEdge_def exampleNode_def set_add_def sortNodesByJLPTLevel_Nil Let_def)

lemma selfLoop_limit5:
  "treeSummary (buildKanjiComponentTree codeUnitCompare selfLoopGraph (asc ''kanji_A'') (Limit 5))
     = Inr ([(asc ''kanji_A'', 0)], [asc ''kanji_A''])"
  by (simp add: treeSummary_def buildKanjiComponentTree_def selfLoop_nodeMap selfLoop_edgeMap
      buildTreeNode.simps usesEdge_def exampleNode_def set_add_def sortNodesByJLPTLevel_Nil Let_def)

lemma selfLoop_noLimit:
  "treeSummary (buildKanjiComponentTree codeUnitCompare selfLoopGraph (asc ''kanji_A'') NoLimit)
     = Inr ([(asc ''kanji_A'', 0)], [asc ''kanji_A''])"
  by (simp add: treeSummary_def buildKanjiComponentTree_def selfLoop_nodeMap selfLoop_edgeMap
      buildTreeNode.simps usesEdge_def exampleNode_def set_add_def sortNodesByJLPTLevel_Nil Let_def)

lemma mutual_nodeMap:
  "nodeMap mutualGraph =
     [(asc ''kanji_A'', exampleNode Kanji ''kanji_A'' ''a'' None),
      (asc ''kanji_B'', exampleNode Kanji ''kanji_B'' ''b'' None)]"
  by (simp add: nodeMap_def mutualGraph_def exampleNode_def asc_def)

lemma mutual_edgeMap:
  "edgeMap mutualGraph =
     [(asc ''kanji_A'', [hd (usesEdge ''kanji_A'' ''kanji_B''), last (usesEdge ''kanji_B'' ''kanji_A'')]),
      (asc ''kanji_B'', [last (usesEdge ''kanji_A'' ''kanji_B''), hd (usesEdge ''kanji_B'' ''kanji_A'')])]"
  by (simp add: edgeMap_def mutualGraph_def usesEdge_def asc_def)

lemma mutual_noLimit:
  "treeSummary (buildKanjiComponentTree codeUnitCompare mutualGraph (asc ''kanji_A'') NoLimit)
     = Inr ([(asc ''kanji_A'', 0), (asc ''kanji_B'', 1)], [asc ''kanji_A''])"
  by (simp add: treeSummary_def buildKanjiComponentTree_def mutual_nodeMap mutual_edgeMap
      buildTreeNode.simps usesEdge_def exampleNode_def set_add_def sortNodesByJLPTLevel_def
      array_sort_def Let_def asc_def)

lemma diamond_nodeMap:
  "nodeMap diamondGraph =
     [(asc ''kanji_A'', exampleNode Kanji ''kanji_A'' ''a'' None),
      (asc ''kanji_B'', exampleNode Kanji ''kanji_B'' ''b'' None),
      (asc ''kanji_C'', exampleNode Kanji ''kanji_C'' ''c'' None),
      (asc ''kanji_D'', exampleNode Kanji ''kanji_D'' ''d'' None)]"
  by (simp add: nodeMap_def diamondGraph_def exampleNode_def asc_def)

lemma diamond_edgeMap:
  "edgeMap diamondGraph =
     [(asc ''kanji_A'', [hd (usesEdge ''kanji_A'' ''kanji_B''), hd (usesEdge ''kanji_A'' ''kanji_C'')]),
      (asc ''kanji_B'', [last (usesEdge ''kanji_A'' ''kanji_B''), hd (usesEdge ''kanji_B'' ''kanji_D'')]),
      (asc ''kanji_C'', [last (usesEdge ''kanji_A'' ''kanji_C''), hd (usesEdge ''kanji_C'' ''kanji_D'')]),
      (asc ''kanji_D'', [last (usesEdge ''kanji_B'' ''kanji_D''), last (usesEdge ''kanji_C'' ''kanji_D'')])]"
  by (simp add: edgeMap_def diamondGraph_def usesEdge_def asc_def)

lemma diamond_limit5:
  "treeSummary (buildKanjiComponentTree codeUnitCompare diamondGraph (asc ''kanji_A'') (Limit 5))
     = Inr ([(asc ''kanji_A'', 0), (asc ''kanji_B'', 1), (asc ''kanji_D'', 2),
             (asc ''kanji_C'', 1), (asc ''kanji_D'', 2)], [])"
  by (simp add: treeSummary_def buildKanjiComponentTree_def diamond_nodeMap diamond_edgeMap
      buildTreeNode.simps usesEdge_def exampleNode_def set_add_def sortNodesByJLPTLevel_def
      array_sort_def Let_def asc_def)

lemma buildTreeNode_on_path:
  "\<not> exceeds d maxDepth \<Longrightarrow> nodeId \<in> set (visitedNodes st)
   \<Longrightarrow> buildTreeNode lc graph maxDepth nodeId d parentId st
       = (None, st\<lparr> circularReferences := circularReferences st @ [nodeId] \<rparr>)"
  by (simp add: buildTreeNode.simps)

lemma buildTreeNode_too_deep:
  "exceeds d maxDepth \<Longrightarrow> buildTreeNode lc graph maxDepth nodeId d parentId st = (None, st)"
  by (simp add: buildTreeNode.simps)

lemma buildTreeNode_fresh:
  assumes "\<not> exceeds d maxDepth" "nodeId \<notin> set (visitedNodes st)"
    "map_of (nodeMap graph) nodeId = Some graphNode"
  shows "\<exists>t st' more. buildTreeNode lc graph maxDepth nodeId d parentId st = (Some t, st')
    \<and> tree_id t = nodeId \<and> depth t = d \<and> data t = graphNode
    \<and> allTreeNodes st' = allTreeNodes st @ t # more
    \<and> visitedNodes st' = visitedNodes st"
proof -
  obtain r st' where b: "buildTreeNode lc graph maxDepth nodeId d parentId st = (r, st')"
    by (cases "buildTreeNode lc graph maxDepth nodeId d parentId st") auto
  have "r \<noteq> None"
    using b assms by (auto simp: buildTreeNode.simps Let_def split: prod.splits)
  then obtain t where r: "r = Some t" by auto
  from build_frame(1) [OF b] r assms(3) obtain more where
    "visitedNodes st' = visitedNodes st" "allTreeNodes st' = allTreeNodes st @ t # more"
    "tree_id t = nodeId" "depth t = d" "data t = graphNode"
    by auto
  with b r show ?thesis by blast
qed
section \<open>Referer pages\<close>

lemma moreNodeMeta_refererTreeNode: "moreNodeMeta (refererTreeNode g) = None"
  by (simp add: refererTreeNode_def)

lemma moreNodeMeta_summaryNode:
  "moreNodeMeta (summaryNode n s e t) =
     Some \<lparr> parentNodeId = n, totalReferers = t, currentIndex = e \<rparr>"
  by (simp add: summaryNode_def Let_def)


lemma slice_past_end:
  assumes "int (length xs) \<le> s"
  shows "slice xs s e = []"
proof -
  have "relativeIndex s (length xs) = length xs"
    using assms by (simp add: relativeIndex_def)
  then show ?thesis by (simp add: slice_def Let_def)
qed


lemma refererGraph_referers:
  "findNodeReferers refererGraph (asc ''kanji_A'') =
     [exampleNode Kanji ''kanji_B'' ''b'' (Some N3), exampleNode Kanji ''kanji_C'' ''c'' (Some N5)]"
  by (simp add: findNodeReferers_def refererGraph_def nodeMap_def usesEdge_def exampleNode_def
      asc_def List.map_filter_def)

lemma str_includes_here: "str_includes (t @ b) t"
proof (cases "t @ b")
  case Nil
  then show ?thesis by simp
next
  case (Cons c s)
  have "prefix t (t @ b)" by simp
  then show ?thesis unfolding Cons by simp
qed

lemma str_includes_mid: "str_includes (a @ t @ b) t"
proof (induction a)
  case Nil
  show ?case using str_includes_here by simp
next
  case (Cons c a)
  then show ?case by simp
qed

lemma isMoreNode_summaryNode: "isMoreNode (summaryNode nodeId s e t)"
proof (cases "s = 0")
  case True
  then show ?thesis
    using str_includes_mid [of nodeId "asc ''_more_referers''" "[]"]
    by (simp add: isMoreNode_def summaryNode_def Let_def)
next
  case False
  have "asc ''_more_referers_'' = asc ''_more_referers'' @ asc ''_''" by (simp add: asc_def)
  then show ?thesis
    using False str_includes_mid [of nodeId "asc ''_more_referers''" "asc ''_'' @ numberToString e"]
    by (simp add: isMoreNode_def summaryNode_def Let_def)
qed


lemma sortNodes_with_summary:
  assumes "isMoreNode s"
  shows "sortNodesByJLPTLevel lc (ns @ [s]) = sortNodesByJLPTLevel lc ns @ [s]"
  using assms by (simp add: sortNodesByJLPTLevel_def Let_def)

lemma buildReferersTree_more:
  assumes "startIndex + maxReferers < int (length (findNodeReferers graph nodeId))"
  shows "buildReferersTree lc graph nodeId maxReferers startIndex =
     sortNodesByJLPTLevel lc
       (map refererTreeNode
          (slice (findNodeReferers graph nodeId) startIndex (startIndex + maxReferers)))
     @ [summaryNode nodeId startIndex (startIndex + maxReferers)
          (length (findNodeReferers graph nodeId))]"
  using assms
  by (simp add: buildReferersTree_def Let_def sortNodes_with_summary isMoreNode_summaryNode)

lemma buildReferersTree_last:
  assumes "\<not> startIndex + maxReferers < int (length (findNodeReferers graph nodeId))"
  shows "buildReferersTree lc graph nodeId maxReferers startIndex =
     sortNodesByJLPTLevel lc
       (map refererTreeNode
          (slice (findNodeReferers graph nodeId) startIndex (startIndex + maxReferers)))"
  using assms by (simp add: buildReferersTree_def Let_def)




lemma fifteenGraph_referers:
  "findNodeReferers fifteenGraph (asc ''kanji_A'') =
     map (\<lambda>i. exampleNode Kanji (''kanji_'' @ i) i None)
       [''r1'', ''r2'', ''r3'', ''r4'', ''r5'', ''r6'', ''r7'', ''r8'', ''r9'', ''r10'',
                 ''r11'', ''r12'', ''r13'', ''r14'', ''r15'']"
  by (simp add: findNodeReferers_def fifteenGraph_def nodeMap_def usesEdge_def exampleNode_def
      asc_def List.map_filter_def)

lemma fifteenGraph_count: "length (findNodeReferers fifteenGraph (asc ''kanji_A'')) = 15"
  by (simp add: fifteenGraph_referers)


lemma fifteenGraph_past_end:
  "buildReferersTree codeUnitCompare fifteenGraph (asc ''kanji_A'') (- 10) 20
     = [summaryNode (asc ''kanji_A'') 20 10 15]"
  using buildReferersTree_more [of 20 "- 10" fifteenGraph "asc ''kanji_A''" codeUnitCompare]
  by (simp add: fifteenGraph_count slice_past_end sortNodesByJLPTLevel_Nil)

lemma summary_20_10:
  "tree_id (summaryNode (asc ''kanji_A'') 20 10 15) = asc ''kanji_A_more_referers_10''"
  "keyword (data (summaryNode (asc ''kanji_A'') 20 10 15)) = asc ''+5 more''"
  "moreNodeMeta (summaryNode (asc ''kanji_A'') 20 10 15)
     = Some \<lparr> parentNodeId = asc ''kanji_A'', totalReferers = 15, currentIndex = 10 \<rparr>"
  by (simp_all add: summaryNode_def Let_def numberToString_def decimal.simps asc_def)



text \<open>
  Claim C9. Whenever the validated build returns, its list of duplicate node ids is
  empty: the kanji and the primitive nodes come out of two maps keyed by node id, kanji
  ids start with \<open>kanji_\<close> and primitive ids with \<open>primitive_\<close>, so the ids of the
  combined node list are pairwise distinct and the scan finds nothing.
\<close>

theorem duplicateNodes_empty:
  assumes "buildValidatedGraph now kanjiData primitivesData jlptMapping = Inr (graph, console)"
  shows "duplicateNodes (validation graph) = []"
proof -
  obtain g c where g: "buildGraph now kanjiData primitivesData jlptMapping = Inr (g, c)"
    and d: "duplicateNodes (validation graph) = snd (duplicateScan (nodes g) ([], []))"
    using assms by (auto simp: buildValidatedGraph_def Let_def split: sum.splits)
  obtain kd pd where "nodes g = map snd (kanjiNodeMap kd jlptMapping) @ map snd (primitiveNodeMap pd)"
    using g by (auto simp: buildGraph_def Let_def split: option.splits sum.splits)
  then have "distinct (map node_id (nodes g))"
    using distinct_node_ids by simp
  then show ?thesis
    using d duplicateScan_distinct [of "nodes g" "[]" "[]"] by simp
qed

theorem duplicateNodes_empty_witness:
  "buildValidatedGraph 0 (Some collidingKanji) (Some []) None =
     Inr (\<lparr> nodes = [createKanjiNode (exampleKanji [0x30F6] ''counter'' '''') None],
            edges = [],
            metadata = \<lparr> totalKanji = 1, totalPrimitives = 0, totalEdges = 0,
                         buildTimestamp = 0 \<rparr>,
            validation = \<lparr> missingComponents = [], duplicateNodes = [] \<rparr> \<rparr>, [])
   \<and> duplicateNodes (validation
         \<lparr> nodes = [createKanjiNode (exampleKanji [0x30F6] ''counter'' '''') None],
           edges = [],
           metadata = \<lparr> totalKanji = 1, totalPrimitives = 0, totalEdges = 0,
                        buildTimestamp = 0 \<rparr>,
           validation = \<lparr> missingComponents = [], duplicateNodes = [] \<rparr> \<rparr>) = []"
  using duplicateNodes_empty [OF collidingKanji_build] collidingKanji_build by simp

text \<open>
  Claim C5. The claim asks that two rows whose sanitized keys collide be reported by the
  validated build. On \<open>collidingKanji\<close> the build keeps one node only, the second row
  having replaced the first under the shared id, and the list of duplicate nodes it
  returns is empty: the collision is merged without a report.
\<close>

theorem colliding_rows_merged_unreported:
  "\<exists>graph console.
     buildValidatedGraph 0 (Some collidingKanji) (Some []) None = Inr (graph, console)
     \<and> map node_id (nodes graph) = [asc ''kanji__'']
     \<and> map keyword (nodes graph) = [asc ''counter'']
     \<and> duplicateNodes (validation graph) = []"
  by (simp add: collidingKanji_build createKanjiNode_def exampleKanji_def generateNodeId_def
      sanitize_def asc_def)

text \<open>
  Claim C1, as far as it holds. Whenever a build returns a graph: the edge list is the
  concatenation of mirrored pairs, a \<open>mnemonic_uses\<close> edge from \<open>a\<close> to \<open>b\<close> immediately
  followed by its \<open>used_in_mnemonic\<close> edge from \<open>b\<close> to \<open>a\<close>, so that either edge is
  present exactly when the other is; each kanji row contributes the pairs from its own
  id to a list of pairwise distinct targets, however often a token repeats in the row;
  and when no two kanji rows share a node id, no \<open>mnemonic_uses\<close> pair occurs twice in
  the whole graph.
\<close>

theorem mnemonic_edges_paired:
  assumes "buildGraph now (Some kanjiData) (Some primitivesData) jlptMapping = Inr (graph, console)"
  shows "edges graph = concat (map mirroredPair (usesPairs (edges graph)))
    \<and> (\<forall>a b. \<lparr> source = a, target = b, edge_type = mnemonic_uses \<rparr> \<in> set (edges graph)
               \<longleftrightarrow> \<lparr> source = b, target = a, edge_type = used_in_mnemonic \<rparr> \<in> set (edges graph))
    \<and> (\<exists>targets. length targets = length kanjiData \<and> (\<forall>ts \<in> set targets. distinct ts)
           \<and> usesPairs (edges graph) = rowPairs kanjiData targets)
    \<and> (distinct (map (\<lambda>k. generateNodeId (asc ''kanji'') (kanji k)) kanjiData)
           \<longrightarrow> distinct (usesPairs (edges graph)))"
proof -
  obtain ms where "kanjiLoop (kanjiNodeMap kanjiData jlptMapping) (primitiveNodeMap primitivesData)
      kanjiData ([], []) = Inr (edges graph, ms)"
    using assms by (auto simp: buildGraph_def createMnemonicEdges_def Let_def split: sum.splits)
  from kanjiLoop_edges [OF this] obtain tss where
    tss: "length tss = length kanjiData" "\<forall>ts \<in> set tss. distinct ts"
    and es: "edges graph = concat (map mirroredPair (rowPairs kanjiData tss))"
    by auto
  have up: "usesPairs (edges graph) = rowPairs kanjiData tss"
    unfolding es by (rule usesPairs_mirrored)
  have paired: "edges graph = concat (map mirroredPair (usesPairs (edges graph)))"
    using es up by simp
  have sym: "\<lparr> source = a, target = b, edge_type = mnemonic_uses \<rparr> \<in> set (edges graph)
      \<longleftrightarrow> \<lparr> source = b, target = a, edge_type = used_in_mnemonic \<rparr> \<in> set (edges graph)" for a b
    using mirrored_membership [OF paired, where a = a and b = b] by simp
  have dist: "distinct (usesPairs (edges graph))"
    if "distinct (map (\<lambda>k. generateNodeId (asc ''kanji'') (kanji k)) kanjiData)"
    unfolding up using that tss by (rule distinct_rowPairs)
  show ?thesis using paired sym tss up dist by blast
qed

theorem mnemonic_edges_paired_witness:
  "buildGraph 0 (Some repeatedTokenRows) (Some []) None =
     Inr (\<lparr> nodes = map (\<lambda>k. createKanjiNode k None) repeatedTokenRows,
            edges = mirroredPair (asc ''kanji_'' @ [0x660E], asc ''kanji_'' @ [0x65E5]),
            metadata = \<lparr> totalKanji = 2, totalPrimitives = 0, totalEdges = 2,
                         buildTimestamp = 0 \<rparr> \<rparr>, [])
   \<and> distinct (map (\<lambda>k. generateNodeId (asc ''kanji'') (kanji k)) repeatedTokenRows)
   \<and> distinct (usesPairs (mirroredPair (asc ''kanji_'' @ [0x660E], asc ''kanji_'' @ [0x65E5])))
   \<and> (\<exists>targets. length targets = length repeatedTokenRows \<and> (\<forall>ts \<in> set targets. distinct ts)
         \<and> usesPairs (mirroredPair (asc ''kanji_'' @ [0x660E], asc ''kanji_'' @ [0x65E5]))
             = rowPairs repeatedTokenRows targets)"
  using mnemonic_edges_paired [OF repeatedTokenRows_build] repeatedTokenRows_build
  by (simp add: repeatedTokenRows_def exampleKanji_def generateNodeId_def sanitize_def asc_def)

text \<open>
  The claim as stated fails where two kanji rows share a node id: on \<open>duplicatedRows\<close>
  the pair from the kanji U+660E to the kanji U+65E5 is created once per row.
\<close>

theorem duplicated_rows_counterexample:
  "buildGraph 0 (Some duplicatedRows) (Some []) None =
     Inr (\<lparr> nodes = map (\<lambda>k. createKanjiNode k None) (tl duplicatedRows),
            edges = mirroredPair (asc ''kanji_'' @ [0x660E], asc ''kanji_'' @ [0x65E5])
                  @ mirroredPair (asc ''kanji_'' @ [0x660E], asc ''kanji_'' @ [0x65E5]),
            metadata = \<lparr> totalKanji = 2, totalPrimitives = 0, totalEdges = 4,
                         buildTimestamp = 0 \<rparr> \<rparr>, [])
   \<and> \<not> distinct (usesPairs (mirroredPair (asc ''kanji_'' @ [0x660E], asc ''kanji_'' @ [0x65E5])
                              @ mirroredPair (asc ''kanji_'' @ [0x660E], asc ''kanji_'' @ [0x65E5])))"
  by (simp add: duplicatedRows_build usesPairs_def mirroredPair_def)

text \<open>
  Claim C6, as far as it holds. When no keyword token is the name of a property that
  the override table inherits from \<open>Object.prototype\<close>, the build does not throw: it
  returns a graph. The tokens that resolve to no node are exactly the members of the
  set of missing mnemonics, the \<open>mnemonic_uses\<close> edges are exactly the pairs from a row
  to the node one of its tokens resolves to (an unresolved token creates no edge), and
  the missing mnemonics are written to the console as one warning. The returned graph
  consists of the nodes, the edges and the four metadata fields: the missing mnemonics
  are not part of it.
\<close>

theorem unresolved_keywords_not_thrown:
  assumes "\<forall>t \<in> set (mnemonicTokens kanjiData). t \<notin> set objectPrototypeKeys"
  shows "\<exists>es missing.
      createMnemonicEdges (kanjiNodeMap kanjiData jlptMapping) (primitiveNodeMap primitivesData)
        kanjiData = Inr (es, missing)
    \<and> set missing = {t \<in> set (mnemonicTokens kanjiData).
          resolveReference (kanjiNodeMap kanjiData jlptMapping)
            (primitiveNodeMap primitivesData) t = Inr None}
    \<and> set (usesPairs es) = {(generateNodeId (asc ''kanji'') (kanji k), node_id n) |k t n.
          k \<in> set kanjiData \<and> t \<in> set (parseComponents (components k))
          \<and> resolveReference (kanjiNodeMap kanjiData jlptMapping)
              (primitiveNodeMap primitivesData) t = Inr (Some n)}
    \<and> buildGraph now (Some kanjiData) (Some primitivesData) jlptMapping =
        Inr (\<lparr> nodes = map snd (kanjiNodeMap kanjiData jlptMapping)
                     @ map snd (primitiveNodeMap primitivesData),
               edges = es,
               metadata = \<lparr> totalKanji = length (kanjiNodeMap kanjiData jlptMapping),
                            totalPrimitives = length (primitiveNodeMap primitivesData),
                            totalEdges = length es,
                            buildTimestamp = now \<rparr> \<rparr>,
             if missing = [] then []
             else [asc ''Missing mnemonic references found: '' @ join (asc '', '') missing])"
proof -
  let ?kn = "kanjiNodeMap kanjiData jlptMapping" and ?pn = "primitiveNodeMap primitivesData"
  have "\<forall>t \<in> set (mnemonicTokens kanjiData). \<exists>r. resolveReference ?kn ?pn t = Inr r"
    using assms resolveReference_returns by blast
  from kanjiLoop_returns [OF this] obtain es missing where
    run: "kanjiLoop ?kn ?pn kanjiData ([], []) = Inr (es, missing)"
    by (metis surj_pair)
  have "\<forall>k \<in> set kanjiData. map_of ?kn (generateNodeId (asc ''kanji'') (kanji k)) \<noteq> None"
    using kanjiNodeMap_has_row by blast
  from kanjiLoop_result [OF run this] have
    res: "set missing = {t \<in> set (mnemonicTokens kanjiData). resolveReference ?kn ?pn t = Inr None}"
      "set (usesPairs es) = {(generateNodeId (asc ''kanji'') (kanji k), node_id n) |k t n.
          k \<in> set kanjiData \<and> t \<in> set (parseComponents (components k))
          \<and> resolveReference ?kn ?pn t = Inr (Some n)}"
    by (simp_all add: usesPairs_def)
  have cme: "createMnemonicEdges ?kn ?pn kanjiData = Inr (es, missing)"
    using run by (simp add: createMnemonicEdges_def)
  have "buildGraph now (Some kanjiData) (Some primitivesData) jlptMapping =
        Inr (\<lparr> nodes = map snd ?kn @ map snd ?pn, edges = es,
               metadata = \<lparr> totalKanji = length ?kn, totalPrimitives = length ?pn,
                            totalEdges = length es, buildTimestamp = now \<rparr> \<rparr>,
             if missing = [] then []
             else [asc ''Missing mnemonic references found: '' @ join (asc '', '') missing])"
    by (simp add: buildGraph_def cme Let_def)
  with cme res show ?thesis by blast
qed

theorem unresolved_keywords_not_thrown_witness:
  "mnemonicTokens missingFooRows = [asc ''foo'']
   \<and> asc ''foo'' \<notin> set objectPrototypeKeys
   \<and> (\<exists>es missing.
        set missing = {t \<in> set (mnemonicTokens missingFooRows).
          resolveReference (kanjiNodeMap missingFooRows None) (primitiveNodeMap []) t = Inr None}
      \<and> buildGraph 0 (Some missingFooRows) (Some []) None =
        Inr (\<lparr> nodes = map snd (kanjiNodeMap missingFooRows None) @ map snd (primitiveNodeMap []),
               edges = es,
               metadata = \<lparr> totalKanji = length (kanjiNodeMap missingFooRows None),
                            totalPrimitives = length (primitiveNodeMap []),
                            totalEdges = length es,
                            buildTimestamp = 0 \<rparr> \<rparr>,
             if missing = [] then []
             else [asc ''Missing mnemonic references found: '' @ join (asc '', '') missing]))"
proof -
  have foo: "asc ''foo'' \<notin> set objectPrototypeKeys"
    by (simp add: objectPrototypeKeys_def asc_def)
  then have h: "\<forall>t \<in> set (mnemonicTokens missingFooRows). t \<notin> set objectPrototypeKeys"
    by (simp add: missingFooRows_tokens)
  show ?thesis
    using foo missingFooRows_tokens unresolved_keywords_not_thrown [OF h, of None "[]" 0]
    by blast
qed

text \<open>
  The claim as stated fails in that the missing mnemonics are not in the returned
  metadata: two builds that differ in their sets of missing mnemonics return the same
  graph, metadata included. And a token that matches no node makes the build throw
  when it is the name of an inherited property, as \<open>constructor\<close> is.
\<close>

theorem missing_mnemonics_not_returned_counterexample:
  "createMnemonicEdges (kanjiNodeMap missingFooRows None) (primitiveNodeMap []) missingFooRows
     = Inr ([], [asc ''foo''])
   \<and> createMnemonicEdges (kanjiNodeMap missingBarRows None) (primitiveNodeMap []) missingBarRows
     = Inr ([], [asc ''bar''])
   \<and> map_sum id fst (buildGraph 0 (Some missingFooRows) (Some []) None)
     = map_sum id fst (buildGraph 0 (Some missingBarRows) (Some []) None)
   \<and> asc ''foo'' \<noteq> asc ''bar''
   \<and> mnemonicTokens inheritedNameRows = [asc ''constructor'']
   \<and> map node_id (map snd (kanjiNodeMap inheritedNameRows None)) = [asc ''kanji_'' @ [0x660E]]
   \<and> buildGraph 0 (Some inheritedNameRows) (Some []) None
       = Inl (RTKDataError ReplaceNotAFunction 1 0)"
  using inheritedNameRows_build
  by (simp add: missingFooRows_edges missingBarRows_edges buildGraph_def)
    (simp add: missingFooRows_def missingBarRows_def kanjiNodeMap_def primitiveNodeMap_def
      createKanjiNode_def exampleKanji_def asc_def)

text \<open>
  Claim C7. The claim asks that a row naming \<open>elbow\<close> be linked, through the override
  map, to the primitive node of the character U+53B6, even where a kanji with the
  keyword \<open>elbow\<close> exists. The override looks the mapped character up as a node id, and
  the id of a primitive node is made from the name of its file, not from its
  character. With the primitive of the character U+53B6 in the file
  \<open>p229.2-myself.svg\<close> both lookups fail; the keyword search then finds no primitive
  with the keyword \<open>elbow\<close> and passes over the kanji U+8098, which is excluded; and the
  build links nothing and reports \<open>elbow\<close> as missing. The same rows are linked to the
  primitive when its file is named by the character (through the override) or by the
  keyword (through the keyword search).
\<close>

theorem elbow_override_misses_primitive:
  "map_of KEYWORD_TO_CHARACTER_MAPPINGS (asc ''elbow'') = Some [0x53B6]
   \<and> parseComponents (components (hd elbowRows)) = [asc ''elbow'']
   \<and> map (\<lambda>n. (node_id n, node_type n, character n, keyword n))
        (map (\<lambda>k. createKanjiNode k None) elbowRows)
       = [(asc ''kanji_'' @ [0x79C1], Kanji, [0x79C1], asc ''private''),
          (asc ''kanji_'' @ [0x8098], Kanji, [0x8098], asc ''elbow'')]
   \<and> (\<lambda>n. (node_id n, node_type n, character n, keyword n))
        (createPrimitiveNode myselfFilePrimitive)
       = (asc ''primitive_p229_2_myself'', Primitive, [0x53B6], asc ''myself'')
   \<and> buildGraph 0 (Some elbowRows) (Some [myselfFilePrimitive]) None =
       Inr (\<lparr> nodes = map (\<lambda>k. createKanjiNode k None) elbowRows
                      @ [createPrimitiveNode myselfFilePrimitive],
              edges = [],
              metadata = \<lparr> totalKanji = 2, totalPrimitives = 1, totalEdges = 0,
                           buildTimestamp = 0 \<rparr> \<rparr>,
            [asc ''Missing mnemonic references found: elbow''])
   \<and> buildGraph 0 (Some elbowRows) (Some [characterFilePrimitive]) None =
       Inr (\<lparr> nodes = map (\<lambda>k. createKanjiNode k None) elbowRows
                      @ [createPrimitiveNode characterFilePrimitive],
              edges = mirroredPair (asc ''kanji_'' @ [0x79C1], asc ''primitive_'' @ [0x53B6]),
              metadata = \<lparr> totalKanji = 2, totalPrimitives = 1, totalEdges = 2,
                           buildTimestamp = 0 \<rparr> \<rparr>, [])
   \<and> buildGraph 0 (Some elbowRows) (Some [elbowFilePrimitive]) None =
       Inr (\<lparr> nodes = map (\<lambda>k. createKanjiNode k None) elbowRows
                      @ [createPrimitiveNode elbowFilePrimitive],
              edges = mirroredPair (asc ''kanji_'' @ [0x79C1], asc ''primitive_p229_2_elbow''),
              metadata = \<lparr> totalKanji = 2, totalPrimitives = 1, totalEdges = 2,
                           buildTimestamp = 0 \<rparr> \<rparr>, [])"
  using elbow_mapping elbowRows_nodes elbow_primitive_nodes(1) myselfFile_build
    characterFile_build elbowFile_build
  by simp

text \<open>
  Claim C3, as far as it holds. The result is the sorted regular nodes followed by the
  nodes whose id contains \<open>_more_referers\<close>, whatever their level. The regular nodes are
  permuted, in ascending order of difficulty rank with the nodes without a level last,
  and nodes of the same level keep the order they had in the input (they are not put
  in lexical order). If the collation is consistent, the regular nodes are sorted for
  the whole comparison, so the nodes without a level are in the collation's order of
  their characters (keywords where the character is empty). For nodes with the levels
  N3, N5, none, N1 the result has the levels N5, N3, N1, none.
\<close>

theorem sibling_ordering:
  fixes lc :: "jsstring \<Rightarrow> jsstring \<Rightarrow> int"
  defines "regular ns \<equiv> filter (\<lambda>n. \<not> isMoreNode n) ns"
  defines "sortedRegular ns \<equiv> array_sort (compareNodes lc) (regular ns)"
  shows "sortNodesByJLPTLevel lc ns = sortedRegular ns @ filter isMoreNode ns
    \<and> mset (sortedRegular ns) = mset (regular ns)
    \<and> sorted (map levelRank (sortedRegular ns))
    \<and> (\<forall>l. filter (\<lambda>n. jlptLevel (data n) = Some l) (sortedRegular ns)
            = filter (\<lambda>n. jlptLevel (data n) = Some l) (regular ns))
    \<and> (consistentCompare lc \<longrightarrow>
          sorted_wrt (\<lambda>a b. compareNodes lc a b \<le> 0) (sortedRegular ns)
          \<and> sorted_wrt (\<lambda>a b. lc (sortChar a) (sortChar b) \<le> 0)
              (filter (\<lambda>n. jlptLevel (data n) = None) (sortedRegular ns)))
    \<and> (\<forall>a b c d. jlptLevel (data a) = Some N3 \<and> jlptLevel (data b) = Some N5
          \<and> jlptLevel (data c) = None \<and> jlptLevel (data d) = Some N1
          \<and> regular [a, b, c, d] = [a, b, c, d]
          \<longrightarrow> sortNodesByJLPTLevel lc [a, b, c, d] = [b, a, d, c])"
proof -
  have 1: "sortNodesByJLPTLevel lc ns = sortedRegular ns @ filter isMoreNode ns"
    by (simp add: sortNodes_decompose sortedRegular_def regular_def)
  have 2: "mset (sortedRegular ns) = mset (regular ns)"
    by (simp add: sortedRegular_def mset_array_sort)
  have 3: "sorted (map levelRank (sortedRegular ns))"
    unfolding sortedRegular_def
    by (rule sorted_key_array_sort) (erule compareNodes_le_rank, erule compareNodes_gt_rank)
  have 4: "filter (\<lambda>n. jlptLevel (data n) = Some l) (sortedRegular ns)
            = filter (\<lambda>n. jlptLevel (data n) = Some l) (regular ns)" for l
    unfolding sortedRegular_def
    by (rule filter_array_sort_stable) (rule compareNodes_same_level)
  have 5: "sorted_wrt (\<lambda>a b. compareNodes lc a b \<le> 0) (sortedRegular ns)
          \<and> sorted_wrt (\<lambda>a b. lc (sortChar a) (sortChar b) \<le> 0)
              (filter (\<lambda>n. jlptLevel (data n) = None) (sortedRegular ns))"
    if "consistentCompare lc"
  proof -
    have s: "sorted_wrt (\<lambda>a b. compareNodes lc a b \<le> 0) (sortedRegular ns)"
      unfolding sortedRegular_def
      by (rule sorted_wrt_array_sort) (rule consistent_compareNodes [OF that])
    then have "sorted_wrt (\<lambda>a b. compareNodes lc a b \<le> 0)
                 (filter (\<lambda>n. jlptLevel (data n) = None) (sortedRegular ns))"
      by (rule sorted_wrt_filter)
    then have "sorted_wrt (\<lambda>a b. lc (sortChar a) (sortChar b) \<le> 0)
                 (filter (\<lambda>n. jlptLevel (data n) = None) (sortedRegular ns))"
      by (rule sorted_wrt_mono_rel [rotated]) (simp add: compareNodes_absent)
    with s show ?thesis by simp
  qed
  have 6: "sortNodesByJLPTLevel lc [a, b, c, d] = [b, a, d, c]"
    if "jlptLevel (data a) = Some N3 \<and> jlptLevel (data b) = Some N5
          \<and> jlptLevel (data c) = None \<and> jlptLevel (data d) = Some N1
          \<and> regular [a, b, c, d] = [a, b, c, d]" for a b c d
  proof -
    have "filter isMoreNode [a, b, c, d] = []"
      using that unfolding regular_def
      by (metis (mono_tags, lifting) filter_False filter_id_conv)
    then show ?thesis
      using that by (simp add: sortNodes_decompose regular_def array_sort_def compareNodes_def JLPT_ORDER_def)
  qed
  show ?thesis using 1 2 3 4 5 6 by blast
qed

theorem sibling_ordering_witness:
  "consistentCompare codeUnitCompare
   \<and> map (\<lambda>n. jlptLevel (data n)) levelNodes = [Some N3, Some N5, None, Some N1]
   \<and> filter (\<lambda>n. \<not> isMoreNode n) levelNodes = levelNodes
   \<and> sortNodesByJLPTLevel codeUnitCompare levelNodes =
     [levelNode ''kanji_b'' ''b'' (Some N5), levelNode ''kanji_c'' ''c'' (Some N3),
      levelNode ''kanji_a'' ''a'' (Some N1), levelNode ''kanji_d'' ''d'' None]
   \<and> sorted_wrt (\<lambda>a b. compareNodes codeUnitCompare a b \<le> 0)
       (array_sort (compareNodes codeUnitCompare) (filter (\<lambda>n. \<not> isMoreNode n) levelNodes))
   \<and> sorted (map levelRank
       (array_sort (compareNodes codeUnitCompare) (filter (\<lambda>n. \<not> isMoreNode n) levelNodes)))"
proof -
  note order = sibling_ordering [of codeUnitCompare levelNodes]
  have levels: "map (\<lambda>n. jlptLevel (data n)) levelNodes = [Some N3, Some N5, None, Some N1]"
    by (simp add: levelNodes_def levelNode_def exampleNode_def)
  have regular: "filter (\<lambda>n. \<not> isMoreNode n) levelNodes = levelNodes"
    by (simp add: levelNodes_regular)
  have "jlptLevel (data (levelNode ''kanji_c'' ''c'' (Some N3))) = Some N3
      \<and> jlptLevel (data (levelNode ''kanji_b'' ''b'' (Some N5))) = Some N5
      \<and> jlptLevel (data (levelNode ''kanji_d'' ''d'' None)) = None
      \<and> jlptLevel (data (levelNode ''kanji_a'' ''a'' (Some N1))) = Some N1
      \<and> filter (\<lambda>n. \<not> isMoreNode n)
          [levelNode ''kanji_c'' ''c'' (Some N3), levelNode ''kanji_b'' ''b'' (Some N5),
           levelNode ''kanji_d'' ''d'' None, levelNode ''kanji_a'' ''a'' (Some N1)]
        = [levelNode ''kanji_c'' ''c'' (Some N3), levelNode ''kanji_b'' ''b'' (Some N5),
           levelNode ''kanji_d'' ''d'' None, levelNode ''kanji_a'' ''a'' (Some N1)]"
    using regular unfolding levelNodes_def by (simp add: levelNode_def exampleNode_def)
  from order [THEN conjunct2, THEN conjunct2, THEN conjunct2, THEN conjunct2, THEN conjunct2,
      rule_format, OF this]
  have example: "sortNodesByJLPTLevel codeUnitCompare levelNodes =
     [levelNode ''kanji_b'' ''b'' (Some N5), levelNode ''kanji_c'' ''c'' (Some N3),
      levelNode ''kanji_a'' ''a'' (Some N1), levelNode ''kanji_d'' ''d'' None]"
    unfolding levelNodes_def .
  from order [THEN conjunct2, THEN conjunct2, THEN conjunct2, THEN conjunct2, THEN conjunct1,
      rule_format, OF consistent_codeUnitCompare]
  have "sorted_wrt (\<lambda>a b. compareNodes codeUnitCompare a b \<le> 0)
       (array_sort (compareNodes codeUnitCompare) (filter (\<lambda>n. \<not> isMoreNode n) levelNodes))"
    by simp
  moreover from order [THEN conjunct2, THEN conjunct2, THEN conjunct1]
  have "sorted (map levelRank
       (array_sort (compareNodes codeUnitCompare) (filter (\<lambda>n. \<not> isMoreNode n) levelNodes)))" .
  ultimately show ?thesis
    using consistent_codeUnitCompare levels regular example by blast
qed

text \<open>
  The claim as stated fails on its own example: the levels N3, N5, none, N1 come out
  as N5, N3, N1, none, not as N5, N1, N3, none. And two nodes of the same level are not
  put in lexical order: \<open>b\<close> stays before \<open>a\<close>.
\<close>

theorem sibling_ordering_counterexample:
  "map (\<lambda>n. jlptLevel (data n)) (sortNodesByJLPTLevel codeUnitCompare levelNodes)
     = [Some N5, Some N3, Some N1, None]
   \<and> [Some N5, Some N3, Some N1, None] \<noteq> [Some N5, Some N1, Some N3, None]
   \<and> map (\<lambda>n. jlptLevel (data n)) levelNodes = [Some N3, Some N5, None, Some N1]
   \<and> map (\<lambda>n. (jlptLevel (data n), sortChar n))
        (sortNodesByJLPTLevel codeUnitCompare sameLevelNodes)
     = [(Some N5, asc ''b''), (Some N5, asc ''a'')]
   \<and> codeUnitCompare (asc ''a'') (asc ''b'') < 0"
  by (simp add: levelNodes_sorted sameLevelNodes_sorted)
    (simp add: levelNodes_def sameLevelNodes_def levelNode_def exampleNode_def sortChar_def
      codeUnitCompare_def asc_def)



text \<open>
  Claim C10, as far as it holds. For a page size that is not negative, a start index
  at or beyond the number of referers gives the empty array: no referer node and no
  summary node (the function is total, it cannot fail). For every page size, a start
  index at or beyond the number of referers gives no referer node, and the summary node
  alone when start index plus page size is below the number of referers. And for every
  page size and start index a summary node (a node carrying pagination metadata)
  occurs in the page exactly when the number of referers strictly exceeds start index
  plus page size.
\<close>

theorem buildReferersTree_past_end:
  fixes lc :: "jsstring \<Rightarrow> jsstring \<Rightarrow> int" and graph :: "'a RTKGraph_scheme"
    and nodeId :: jsstring and maxReferers startIndex :: int
  defines "refs \<equiv> findNodeReferers graph nodeId"
  defines "page \<equiv> buildReferersTree lc graph nodeId maxReferers startIndex"
  shows "(0 \<le> maxReferers \<and> int (length refs) \<le> startIndex \<longrightarrow> page = [])
    \<and> (int (length refs) \<le> startIndex \<longrightarrow>
         page = (if startIndex + maxReferers < int (length refs)
                 then [summaryNode nodeId startIndex (startIndex + maxReferers) (length refs)]
                 else []))
    \<and> ((\<exists>n \<in> set page. moreNodeMeta n \<noteq> None)
         \<longleftrightarrow> startIndex + maxReferers < int (length refs))"
proof -
  have past: "page = (if startIndex + maxReferers < int (length refs)
                 then [summaryNode nodeId startIndex (startIndex + maxReferers) (length refs)]
                 else [])"
    if "int (length refs) \<le> startIndex"
  proof (cases "startIndex + maxReferers < int (length refs)")
    case True
    then show ?thesis
      using buildReferersTree_more [of startIndex maxReferers graph nodeId lc] that
      by (simp add: page_def refs_def slice_past_end sortNodesByJLPTLevel_Nil)
  next
    case False
    then show ?thesis
      using buildReferersTree_last [of startIndex maxReferers graph nodeId lc] that
      by (simp add: page_def refs_def slice_past_end sortNodesByJLPTLevel_Nil)
  qed
  then have empty: "page = []" if "0 \<le> maxReferers" "int (length refs) \<le> startIndex"
    using that by simp
  have meta: "(\<exists>n \<in> set page. moreNodeMeta n \<noteq> None)
         \<longleftrightarrow> startIndex + maxReferers < int (length refs)"
    unfolding page_def refs_def
    by (auto simp: buildReferersTree_def Let_def set_sortNodesByJLPTLevel
        moreNodeMeta_refererTreeNode moreNodeMeta_summaryNode)
  show ?thesis using past empty meta by blast
qed

theorem buildReferersTree_past_end_witness:
  "int (length (findNodeReferers refererGraph (asc ''kanji_A''))) \<le> 2
   \<and> buildReferersTree codeUnitCompare refererGraph (asc ''kanji_A'') 10 2 = []
   \<and> buildReferersTree codeUnitCompare refererGraph (asc ''kanji_A'') 0 2 = []
   \<and> (\<exists>n \<in> set (buildReferersTree codeUnitCompare refererGraph (asc ''kanji_A'') 1 0).
          moreNodeMeta n \<noteq> None)
   \<and> (0 :: int) + 1 < int (length (findNodeReferers refererGraph (asc ''kanji_A'')))"
  using buildReferersTree_past_end [where graph = refererGraph and nodeId = "asc ''kanji_A''"
        and maxReferers = 10 and startIndex = 2 and lc = codeUnitCompare]
    buildReferersTree_past_end [where graph = refererGraph and nodeId = "asc ''kanji_A''"
        and maxReferers = 0 and startIndex = 2 and lc = codeUnitCompare]
    buildReferersTree_past_end [where graph = refererGraph and nodeId = "asc ''kanji_A''"
        and maxReferers = 1 and startIndex = 0 and lc = codeUnitCompare]
  by (simp add: refererGraph_referers)

text \<open>
  The claim as stated fails for a negative page size. On the node with 15 referers,
  page size -10 at start index 20 gives the end index 10 and an empty slice, and as
  15 exceeds 10 the page is one summary node, with next offset 10, that announces 5
  more.
\<close>

theorem negative_page_size_past_end_counterexample:
  "length (findNodeReferers fifteenGraph (asc ''kanji_A'')) = 15
   \<and> buildReferersTree codeUnitCompare fifteenGraph (asc ''kanji_A'') (- 10) 20
       = [summaryNode (asc ''kanji_A'') 20 10 15]
   \<and> tree_id (summaryNode (asc ''kanji_A'') 20 10 15) = asc ''kanji_A_more_referers_10''
   \<and> keyword (data (summaryNode (asc ''kanji_A'') 20 10 15)) = asc ''+5 more''
   \<and> moreNodeMeta (summaryNode (asc ''kanji_A'') 20 10 15)
       = Some \<lparr> parentNodeId = asc ''kanji_A'', totalReferers = 15, currentIndex = 10 \<rparr>"
  using fifteenGraph_count fifteenGraph_past_end summary_20_10 by simp

text \<open>
  Claim C8. A line is parsed into fields and padded with empty fields up to 8: the
  fields that are there stay, the missing ones are empty, and a short line is not
  rejected for being short. A line is rejected, with a parse error that carries its
  line number, exactly when after padding and trimming its character field is empty or
  both keyword fields are; otherwise it yields its record. Over a list of lines the
  parse returns all records when no line is rejected, and otherwise throws the error
  of the first rejected line with that line's number; \<open>parseKanjiCSV\<close> runs this over
  the non-blank lines after the header.
\<close>

theorem kanji_rows_padded_and_validated:
  fixes toLowerCase :: "jsstring \<Rightarrow> jsstring" and csvText line :: jsstring
    and ls :: "jsstring list" and n i j :: nat
  defines "nonBlank \<equiv> filter (\<lambda>l. length l > 0) (map trim (split_on 0xA csvText))"
  defines "start \<equiv> (if str_includes (toLowerCase (nonBlank ! 0)) (asc ''kanji'') then 1 else 0)"
  shows "(rowRejected line \<longrightarrow> (\<exists>msg. parseKanjiRow line n = Inl (RTKParseError msg (Some n))))
    \<and> (\<not> rowRejected line \<longrightarrow> parseKanjiRow line n = Inr (rowData line))
    \<and> (\<forall>k < 8. length (parseCSVLine line) \<le> k \<longrightarrow> padFields (parseCSVLine line) ! k = [])
    \<and> (\<forall>k < length (parseCSVLine line).
          padFields (parseCSVLine line) ! k = parseCSVLine line ! k)
    \<and> ((\<forall>l \<in> set ls. \<not> rowRejected l) \<longrightarrow> parseKanjiRows i ls = Inr (map rowData ls))
    \<and> (j < length ls \<and> rowRejected (ls ! j) \<and> (\<forall>j' < j. \<not> rowRejected (ls ! j'))
          \<longrightarrow> (\<exists>msg. parseKanjiRows i ls = Inl (RTKParseError msg (Some (i + j + 1)))))
    \<and> (nonBlank \<noteq> [] \<longrightarrow>
          parseKanjiCSV toLowerCase csvText = parseKanjiRows start (drop start nonBlank))"
proof -
  have csv: "parseKanjiCSV toLowerCase csvText = parseKanjiRows start (drop start nonBlank)"
    if "nonBlank \<noteq> []"
    using that by (simp add: parseKanjiCSV_def Let_def nonBlank_def start_def)
  show ?thesis
    using parseKanjiRow_rejected [of line n] parseKanjiRow_accepted [of line n]
      padFields_missing [of "parseCSVLine line"] padFields_short [of _ "parseCSVLine line"]
      parseKanjiRows_accepted [of ls i] parseKanjiRows_rejected [of j ls i] csv
    by blast
qed

theorem kanji_rows_padded_and_validated_witness:
  "length (parseCSVLine shortRow) = 4
   \<and> padFields (parseCSVLine shortRow) ! 7 = []
   \<and> \<not> rowRejected shortRow
   \<and> parseKanjiRow shortRow 1 =
       Inr \<lparr> kanji = [0x65E5], id5th = Some 1, id6th = Some 2, keyword5th = asc ''day'',
             keyword6th = [], components = [], KanjiData.onReading = [],
             KanjiData.kunReading = [] \<rparr>
   \<and> rowRejected noKeywordRow
   \<and> (\<exists>msg. parseKanjiRow noKeywordRow 2 = Inl (RTKParseError msg (Some 2)))
   \<and> (\<exists>msg. parseKanjiRows 0 [shortRow, noKeywordRow] = Inl (RTKParseError msg (Some 2)))
   \<and> filter (\<lambda>l. length l > 0) (map trim (split_on 0xA (shortRow @ [0xA, 0xA] @ noKeywordRow)))
       = [shortRow, noKeywordRow]
   \<and> parseKanjiCSV asciiToLowerCase (shortRow @ [0xA, 0xA] @ noKeywordRow) =
       parseKanjiRows 0 [shortRow, noKeywordRow]
   \<and> parseKanjiCSV asciiToLowerCase (shortRow @ [0xA, 0xA] @ noKeywordRow) =
       Inl (RTKParseError (asc ''Missing keywords at line 2'') (Some 2))
   \<and> rowRejected noCharacterRow
   \<and> parseKanjiRow noCharacterRow 7 =
       Inl (RTKParseError (asc ''Missing kanji character at line 7'') (Some 7))"
proof -
  note short = kanji_rows_padded_and_validated [where line = shortRow and n = 1
      and ls = "[shortRow, noKeywordRow]" and i = 0 and j = 1
      and csvText = "shortRow @ [0xA, 0xA] @ noKeywordRow" and toLowerCase = asciiToLowerCase]
  note noKeyword = kanji_rows_padded_and_validated [where line = noKeywordRow and n = 2
      and ls = "[]" and i = 0 and j = 0 and csvText = "[]" and toLowerCase = asciiToLowerCase]
  have len: "length (parseCSVLine shortRow) = 4"
    by (simp add: shortRow_fields)
  have pad: "padFields (parseCSVLine shortRow) ! 7 = []"
    using short [THEN conjunct2, THEN conjunct2, THEN conjunct1, rule_format, of 7] len by simp
  have row: "parseKanjiRow shortRow 1 =
       Inr \<lparr> kanji = [0x65E5], id5th = Some 1, id6th = Some 2, keyword5th = asc ''day'',
             keyword6th = [], components = [], KanjiData.onReading = [],
             KanjiData.kunReading = [] \<rparr>"
    using short [THEN conjunct2, THEN conjunct1, rule_format, OF shortRow_accepted]
    by (simp add: shortRow_data)
  have rej: "\<exists>msg. parseKanjiRow noKeywordRow 2 = Inl (RTKParseError msg (Some 2))"
    using noKeyword [THEN conjunct1, rule_format, OF noKeywordRow_rejected] .
  have first: "(1 :: nat) < length [shortRow, noKeywordRow]
      \<and> rowRejected ([shortRow, noKeywordRow] ! 1)
      \<and> (\<forall>j' < 1. \<not> rowRejected ([shortRow, noKeywordRow] ! j'))"
    using shortRow_accepted noKeywordRow_rejected by simp
  have two: "(0 :: nat) + 1 + 1 = 2"
    by simp
  have rows: "\<exists>msg. parseKanjiRows 0 [shortRow, noKeywordRow] = Inl (RTKParseError msg (Some 2))"
    using short [THEN conjunct2, THEN conjunct2, THEN conjunct2, THEN conjunct2, THEN conjunct2,
        THEN conjunct1, rule_format, OF first]
    unfolding two .
  have header: "\<not> str_includes (asciiToLowerCase shortRow) (asc ''kanji'')"
    by (simp add: shortRow_def js_eval)
  have csv: "parseKanjiCSV asciiToLowerCase (shortRow @ [0xA, 0xA] @ noKeywordRow) =
       parseKanjiRows 0 [shortRow, noKeywordRow]"
    using short [THEN conjunct2, THEN conjunct2, THEN conjunct2, THEN conjunct2, THEN conjunct2,
        THEN conjunct2, rule_format] header
    unfolding two_rows_lines by simp
  show ?thesis
    using len pad shortRow_accepted row noKeywordRow_rejected rej rows two_rows_lines csv
      two_rows_error noCharacterRow_rejected noCharacterRow_error
    by blast
qed

text \<open>
  Claim C2, as far as it holds. Every call of \<open>buildTreeNode\<close>, and of the loop over the
  edges, returns, whatever the depth limit is (a finite number, \<open>Infinity\<close> or \<open>NaN\<close>):
  the arguments of every call lie in the domain of the recursion, as the descent puts
  a new id of the node map on the path at every level. So the build terminates on every
  graph, with a result or with one of its errors. In the result every node has a depth
  from 0 on that does not exceed the limit, and every id in the list of circular
  references lies on a cycle of \<open>mnemonic_uses\<close> edges of the graph: an id that is only
  reached again along another branch is not recorded. For a single call: beyond the
  limit nothing is created and nothing recorded; within the limit, an id on the current
  path is recorded in the list of circular references and no node is created; within
  the limit, an id that is not on the path and names a graph node gets a new tree node,
  appended to the nodes created so far whether or not they already hold a node of that
  id; and after the call, as after the loop over the siblings, the set of ids on the
  path is what it was before.
\<close>

theorem component_tree_cycle_safe:
  fixes graph :: "'a RTKGraph_scheme"
  shows "buildTreeNode_buildChildren_dom (Inl (lc, graph, maxDepth, nodeId, d, parentId, st))
    \<and> buildTreeNode_buildChildren_dom (Inr (lc, graph, maxDepth, es, d, pid, st))
    \<and> (buildKanjiComponentTree lc graph kanjiId maxDepth = Inr result \<longrightarrow>
        (\<forall>n \<in> set (allNodes result). 0 \<le> depth n \<and> \<not> exceeds (depth n) maxDepth)
      \<and> (\<forall>x \<in> set (TreeMetadata.circularReferences (TreeTransformationResult.metadata result)).
            (x, x) \<in> (set (usesPairs (edges graph)))\<^sup>+))
    \<and> (exceeds d maxDepth \<longrightarrow> buildTreeNode lc graph maxDepth nodeId d parentId st = (None, st))
    \<and> (\<not> exceeds d maxDepth \<and> nodeId \<in> set (visitedNodes st) \<longrightarrow>
          buildTreeNode lc graph maxDepth nodeId d parentId st
            = (None, st\<lparr> circularReferences := circularReferences st @ [nodeId] \<rparr>))
    \<and> (\<not> exceeds d maxDepth \<and> nodeId \<notin> set (visitedNodes st)
        \<and> map_of (nodeMap graph) nodeId = Some graphNode \<longrightarrow>
          (\<exists>t st' more. buildTreeNode lc graph maxDepth nodeId d parentId st = (Some t, st')
            \<and> tree_id t = nodeId \<and> depth t = d \<and> data t = graphNode
            \<and> allTreeNodes st' = allTreeNodes st @ t # more
            \<and> visitedNodes st' = visitedNodes st))
    \<and> (\<forall>cs st'. buildChildren lc graph maxDepth es d pid st = (cs, st') \<longrightarrow>
          visitedNodes st' = visitedNodes st)"
proof -
  have whole: "(\<forall>n \<in> set (allNodes result). 0 \<le> depth n \<and> \<not> exceeds (depth n) maxDepth)
      \<and> (\<forall>x \<in> set (TreeMetadata.circularReferences (TreeTransformationResult.metadata result)).
            (x, x) \<in> (set (usesPairs (edges graph)))\<^sup>+)"
    if ok: "buildKanjiComponentTree lc graph kanjiId maxDepth = Inr result"
  proof -
    let ?init = "\<lparr> visitedNodes = [], circularReferences = [], allTreeNodes = [] \<rparr>"
    obtain r st where b: "buildTreeNode lc graph maxDepth kanjiId 0 None ?init = (Some r, st)"
      and all: "allNodes result = allTreeNodes st"
      and circ: "TreeMetadata.circularReferences (TreeTransformationResult.metadata result)
          = circularReferences st"
      using ok
      by (auto simp: buildKanjiComponentTree_def split: option.splits if_splits prod.splits)
    from build_frame(1) [OF b]
    have "\<forall>n \<in> set (allTreeNodes st). 0 \<le> depth n \<and> \<not> exceeds (depth n) maxDepth"
      by auto
    moreover from build_cycles(1) [OF b]
    have "\<forall>x \<in> set (circularReferences st). (x, x) \<in> (set (usesPairs (edges graph)))\<^sup>+"
      by simp
    ultimately show ?thesis using all circ by simp
  qed
  have sib: "visitedNodes st' = visitedNodes st"
    if "buildChildren lc graph maxDepth es d pid st = (cs, st')" for cs st'
    using build_frame(2) [OF that] by simp
  have returns: "buildTreeNode_buildChildren_dom (Inl (lc, graph, maxDepth, nodeId, d, parentId, st))"
    "buildTreeNode_buildChildren_dom (Inr (lc, graph, maxDepth, es, d, pid, st))"
    by (rule buildTreeNode_buildChildren_total)+
  show ?thesis
    using returns whole buildTreeNode_too_deep [of d maxDepth lc graph nodeId parentId st]
      buildTreeNode_on_path [of d maxDepth nodeId st lc graph parentId]
      buildTreeNode_fresh [of d maxDepth nodeId st graph graphNode lc parentId] sib
    by blast
qed

theorem component_tree_cycle_safe_witness:
  "treeSummary (buildKanjiComponentTree codeUnitCompare diamondGraph (asc ''kanji_A'') (Limit 5))
     = Inr ([(asc ''kanji_A'', 0), (asc ''kanji_B'', 1), (asc ''kanji_D'', 2),
             (asc ''kanji_C'', 1), (asc ''kanji_D'', 2)], [])
   \<and> treeSummary (buildKanjiComponentTree codeUnitCompare selfLoopGraph (asc ''kanji_A'') (Limit 5))
     = Inr ([(asc ''kanji_A'', 0)], [asc ''kanji_A''])
   \<and> treeSummary (buildKanjiComponentTree codeUnitCompare selfLoopGraph (asc ''kanji_A'') NoLimit)
     = Inr ([(asc ''kanji_A'', 0)], [asc ''kanji_A''])
   \<and> treeSummary (buildKanjiComponentTree codeUnitCompare mutualGraph (asc ''kanji_A'') NoLimit)
     = Inr ([(asc ''kanji_A'', 0), (asc ''kanji_B'', 1)], [asc ''kanji_A''])
   \<and> (asc ''kanji_A'', asc ''kanji_A'') \<in> (set (usesPairs (edges mutualGraph)))\<^sup>+
   \<and> (\<exists>result.
         buildKanjiComponentTree codeUnitCompare diamondGraph (asc ''kanji_A'') (Limit 5) = Inr result
         \<and> list_all (\<lambda>n. 0 \<le> depth n \<and> \<not> exceeds (depth n) (Limit 5)) (allNodes result))"
proof -
  note safe = component_tree_cycle_safe [THEN conjunct2, THEN conjunct2, THEN conjunct1, rule_format]
  obtain r1 where
    r1: "buildKanjiComponentTree codeUnitCompare mutualGraph (asc ''kanji_A'') NoLimit = Inr r1"
    and c1: "TreeMetadata.circularReferences (TreeTransformationResult.metadata r1) = [asc ''kanji_A'']"
    using mutual_noLimit
    by (cases "buildKanjiComponentTree codeUnitCompare mutualGraph (asc ''kanji_A'') NoLimit")
      (auto simp: treeSummary_def)
  have cyc: "(asc ''kanji_A'', asc ''kanji_A'') \<in> (set (usesPairs (edges mutualGraph)))\<^sup>+"
    using safe [OF r1] c1 by simp
  obtain r2 where
    r2: "buildKanjiComponentTree codeUnitCompare diamondGraph (asc ''kanji_A'') (Limit 5) = Inr r2"
    using diamond_limit5
    by (cases "buildKanjiComponentTree codeUnitCompare diamondGraph (asc ''kanji_A'') (Limit 5)")
      (auto simp: treeSummary_def)
  have "list_all (\<lambda>n. 0 \<le> depth n \<and> \<not> exceeds (depth n) (Limit 5)) (allNodes r2)"
    using safe [OF r2] by (simp add: list_all_iff)
  with r2 cyc selfLoop_limit5 selfLoop_noLimit mutual_noLimit diamond_limit5 show ?thesis by blast
qed

text \<open>
  The claim as stated fails for an id on the path that is reached beyond the depth
  limit: the depth is checked first. With the limit 0 the kanji that uses itself is
  reached again at depth 1, where the call returns without recording it, and the
  list of circular references of the build is empty.
\<close>

theorem path_id_beyond_limit_counterexample:
  "treeSummary (buildKanjiComponentTree codeUnitCompare selfLoopGraph (asc ''kanji_A'') (Limit 0))
     = Inr ([(asc ''kanji_A'', 0)], [])
   \<and> usesPairs (edges selfLoopGraph) = [(asc ''kanji_A'', asc ''kanji_A'')]
   \<and> asc ''kanji_A'' \<in> set (visitedNodes selfLoopPathState)
   \<and> buildTreeNode codeUnitCompare selfLoopGraph (Limit 0) (asc ''kanji_A'') 1
        (Some (asc ''kanji_A'')) selfLoopPathState = (None, selfLoopPathState)"
proof -
  have "usesPairs (edges selfLoopGraph) = [(asc ''kanji_A'', asc ''kanji_A'')]"
    by (simp add: selfLoopGraph_def usesPairs_def usesEdge_def)
  moreover have "asc ''kanji_A'' \<in> set (visitedNodes selfLoopPathState)"
    by (simp add: selfLoopPathState_def)
  moreover have "buildTreeNode codeUnitCompare selfLoopGraph (Limit 0) (asc ''kanji_A'') 1
      (Some (asc ''kanji_A'')) selfLoopPathState = (None, selfLoopPathState)"
    by (simp add: buildTreeNode.simps)
  ultimately show ?thesis using selfLoop_limit0 by simp
qed

end
